theory Spec2Isabelle
  imports Complex_Main "HOL-Library.AList"
begin

section \<open>JavaScript numbers\<close>

text \<open>
  Every number of the program is an ECMAScript \<open>number\<close>, an IEEE 754 binary64 value:
  a finite double, one of the two infinities, or NaN. The code itself produces non-finite
  values (\<open>let minDist = Infinity\<close>, \<open>Math.min()\<close> of no arguments, a quotient \<open>0 / 0\<close>),
  so the model keeps them.

  An operation on finite values returns the exact result rounded to the nearest double,
  ties to even, with gradual underflow and with overflow to an infinity. \<open>round_even\<close> is
  rounding to the nearest integer, ties to even; \<open>exponent a\<close> is the exponent of the unit
  in the last place at magnitude \<open>a\<close> (the least \<open>q \<ge> -1074\<close> with \<open>a < 2^(q+53)\<close>, and 971
  from \<open>2^1023\<close> on); \<open>nearest x\<close> is \<open>x\<close> rounded to a multiple of that unit; \<open>rnd x\<close> is
  the number the machine returns for the exact result \<open>x\<close>.
\<close>

datatype jsnum = Fin real | PInf | NInf | NaN

definition round_even :: "real \<Rightarrow> int" where
  "round_even x =
     (let f = \<lfloor>x\<rfloor>; d = x - of_int f
      in if d < 1 / 2 then f else if 1 / 2 < d then f + 1 else if even f then f else f + 1)"

definition exponent :: "real \<Rightarrow> int" where
  "exponent a =
     (case find (\<lambda>q. a < 2 powi (q + 53)) [- 1074 .. 970] of Some q \<Rightarrow> q | None \<Rightarrow> 971)"

definition nearest :: "real \<Rightarrow> real" where
  "nearest x = of_int (round_even (x / 2 powi exponent \<bar>x\<bar>)) * 2 powi exponent \<bar>x\<bar>"

definition rnd :: "real \<Rightarrow> jsnum" where
  "rnd x =
     (let r = nearest x
      in if 2 powi 1024 \<le> r then PInf else if r \<le> - (2 powi 1024) then NInf else Fin r)"

text \<open>
  The arithmetic operators. On the special values they follow the language: NaN is
  contagious, \<open>Infinity - Infinity\<close>, \<open>0 * Infinity\<close>, \<open>0 / 0\<close> and \<open>Infinity / Infinity\<close> are
  NaN, a nonzero finite value over zero is an infinity, and every comparison with NaN is
  false. The sign of zero is not tracked: it could only show in the sign of an infinity
  produced by a division by zero or in \<open>Math.atan2\<close>, and the program divides only by
  nonzero constants, by a difference \<open>max - min\<close> taken after \<open>max === min\<close> failed and by
  a sum of two squares, and calls \<open>Math.atan2\<close> on two square roots. A decimal literal of
  the source, such as \<open>0.8\<close>, denotes the double nearest to it, \<open>rnd 0.8\<close>; an integer
  literal below \<open>2^53\<close> is itself a double.
\<close>

instantiation jsnum :: "{plus, minus, uminus, times, inverse, ord}"
begin

fun plus_jsnum :: "jsnum \<Rightarrow> jsnum \<Rightarrow> jsnum" where
  "plus_jsnum NaN _ = NaN"
| "plus_jsnum _ NaN = NaN"
| "plus_jsnum (Fin a) (Fin b) = rnd (a + b)"
| "plus_jsnum PInf NInf = NaN"
| "plus_jsnum NInf PInf = NaN"
| "plus_jsnum PInf _ = PInf"
| "plus_jsnum _ PInf = PInf"
| "plus_jsnum NInf _ = NInf"
| "plus_jsnum _ NInf = NInf"

fun uminus_jsnum :: "jsnum \<Rightarrow> jsnum" where
  "uminus_jsnum (Fin a) = Fin (- a)"
| "uminus_jsnum PInf = NInf"
| "uminus_jsnum NInf = PInf"
| "uminus_jsnum NaN = NaN"

definition minus_jsnum :: "jsnum \<Rightarrow> jsnum \<Rightarrow> jsnum" where
  "minus_jsnum a b = a + (- b)"

fun times_jsnum :: "jsnum \<Rightarrow> jsnum \<Rightarrow> jsnum" where
  "times_jsnum NaN _ = NaN"
| "times_jsnum _ NaN = NaN"
| "times_jsnum (Fin a) (Fin b) = rnd (a * b)"
| "times_jsnum (Fin a) PInf = (if a = 0 then NaN else if 0 < a then PInf else NInf)"
| "times_jsnum (Fin a) NInf = (if a = 0 then NaN else if 0 < a then NInf else PInf)"
| "times_jsnum PInf (Fin b) = (if b = 0 then NaN else if 0 < b then PInf else NInf)"
| "times_jsnum NInf (Fin b) = (if b = 0 then NaN else if 0 < b then NInf else PInf)"
| "times_jsnum PInf PInf = PInf"
| "times_jsnum PInf NInf = NInf"
| "times_jsnum NInf PInf = NInf"
| "times_jsnum NInf NInf = PInf"

fun divide_jsnum :: "jsnum \<Rightarrow> jsnum \<Rightarrow> jsnum" where
  "divide_jsnum NaN _ = NaN"
| "divide_jsnum _ NaN = NaN"
| "divide_jsnum (Fin a) (Fin b) =
     (if b = 0 then (if a = 0 then NaN else if 0 < a then PInf else NInf)
      else rnd (a / b))"
| "divide_jsnum (Fin a) PInf = Fin 0"
| "divide_jsnum (Fin a) NInf = Fin 0"
| "divide_jsnum PInf (Fin b) = (if 0 \<le> b then PInf else NInf)"
| "divide_jsnum NInf (Fin b) = (if 0 \<le> b then NInf else PInf)"
| "divide_jsnum PInf PInf = NaN"
| "divide_jsnum PInf NInf = NaN"
| "divide_jsnum NInf PInf = NaN"
| "divide_jsnum NInf NInf = NaN"

fun inverse_jsnum :: "jsnum \<Rightarrow> jsnum" where
  "inverse_jsnum (Fin a) = (if a = 0 then PInf else rnd (1 / a))"
| "inverse_jsnum PInf = Fin 0"
| "inverse_jsnum NInf = Fin 0"
| "inverse_jsnum NaN = NaN"

fun less_jsnum :: "jsnum \<Rightarrow> jsnum \<Rightarrow> bool" where
  "less_jsnum (Fin a) (Fin b) = (a < b)"
| "less_jsnum (Fin a) PInf = True"
| "less_jsnum NInf (Fin b) = True"
| "less_jsnum NInf PInf = True"
| "less_jsnum _ _ = False"

fun less_eq_jsnum :: "jsnum \<Rightarrow> jsnum \<Rightarrow> bool" where
  "less_eq_jsnum (Fin a) (Fin b) = (a \<le> b)"
| "less_eq_jsnum (Fin a) PInf = True"
| "less_eq_jsnum NInf (Fin b) = True"
| "less_eq_jsnum NInf PInf = True"
| "less_eq_jsnum PInf PInf = True"
| "less_eq_jsnum NInf NInf = True"
| "less_eq_jsnum _ _ = False"

instance ..

end

text \<open>The operator \<open>===\<close> on numbers: NaN is not equal to itself.\<close>

definition strict_eq :: "jsnum \<Rightarrow> jsnum \<Rightarrow> bool" where
  "strict_eq a b = (a \<noteq> NaN \<and> a = b)"

text \<open>\<open>Math.min\<close> and \<open>Math.max\<close>: NaN if any argument is NaN; of no arguments,
  \<open>Infinity\<close> and \<open>-Infinity\<close>.\<close>

fun Math_min2 :: "jsnum \<Rightarrow> jsnum \<Rightarrow> jsnum" where
  "Math_min2 NaN _ = NaN"
| "Math_min2 _ NaN = NaN"
| "Math_min2 a b = (if b < a then b else a)"

fun Math_max2 :: "jsnum \<Rightarrow> jsnum \<Rightarrow> jsnum" where
  "Math_max2 NaN _ = NaN"
| "Math_max2 _ NaN = NaN"
| "Math_max2 a b = (if a < b then b else a)"

definition Math_min :: "jsnum list \<Rightarrow> jsnum" where
  "Math_min xs = fold (\<lambda>x acc. Math_min2 acc x) xs PInf"

definition Math_max :: "jsnum list \<Rightarrow> jsnum" where
  "Math_max xs = fold (\<lambda>x acc. Math_max2 acc x) xs NInf"

text \<open>
  \<open>Math.sqrt\<close> is correctly rounded. The language leaves the accuracy of \<open>Math.sin\<close>,
  \<open>Math.cos\<close> and \<open>Math.atan2\<close> to the implementation; they are taken as correctly rounded
  here, and the statements below that depend on their values leave margins far wider
  than a unit in the last place.
\<close>

fun Math_sqrt :: "jsnum \<Rightarrow> jsnum" where
  "Math_sqrt (Fin a) = (if a < 0 then NaN else rnd (sqrt a))"
| "Math_sqrt PInf = PInf"
| "Math_sqrt NInf = NaN"
| "Math_sqrt NaN = NaN"

fun Math_sin :: "jsnum \<Rightarrow> jsnum" where
  "Math_sin (Fin a) = rnd (sin a)"
| "Math_sin _ = NaN"

fun Math_cos :: "jsnum \<Rightarrow> jsnum" where
  "Math_cos (Fin a) = rnd (cos a)"
| "Math_cos _ = NaN"

definition Math_PI :: jsnum where
  "Math_PI = rnd pi"

fun Math_atan2 :: "jsnum \<Rightarrow> jsnum \<Rightarrow> jsnum" where
  "Math_atan2 NaN _ = NaN"
| "Math_atan2 _ NaN = NaN"
| "Math_atan2 (Fin y) (Fin x) =
     (if 0 < x then rnd (arctan (y / x))
      else if x < 0 then (if 0 \<le> y then rnd (arctan (y / x) + pi) else rnd (arctan (y / x) - pi))
      else if 0 < y then rnd (pi / 2)
      else if y < 0 then rnd (- pi / 2)
      else Fin 0)"
| "Math_atan2 (Fin y) PInf = Fin 0"
| "Math_atan2 (Fin y) NInf = (if 0 \<le> y then rnd pi else rnd (- pi))"
| "Math_atan2 PInf (Fin x) = rnd (pi / 2)"
| "Math_atan2 NInf (Fin x) = rnd (- pi / 2)"
| "Math_atan2 PInf PInf = rnd (pi / 4)"
| "Math_atan2 PInf NInf = rnd (3 * pi / 4)"
| "Math_atan2 NInf PInf = rnd (- pi / 4)"
| "Math_atan2 NInf NInf = rnd (- 3 * pi / 4)"

text \<open>\<open>Math.round\<close>: the nearest integer, a tie going up; no rounding error is involved.\<close>

fun Math_round :: "jsnum \<Rightarrow> jsnum" where
  "Math_round (Fin a) = Fin (of_int \<lfloor>a + 1 / 2\<rfloor>)"
| "Math_round x = x"

text \<open>Decimal rendering of an array index, for the template string \<open>`r${idx + 1}`\<close>.\<close>

fun decimal :: "nat \<Rightarrow> string" where
  "decimal n =
     (if n < 10 then [''0123456789'' ! n]
      else decimal (n div 10) @ [''0123456789'' ! (n mod 10)])"

declare decimal.simps [simp del]

record point =
  lng :: jsnum
  lat :: jsnum


section \<open>RoutePlanEngine\<close>

text \<open>
  The records follow \<open>RoutePlanResult\<close> and the object literal built in \<open>planRoute\<close>.
  Texts shown to the user (step instructions, \<open>trafficStatus\<close>, \<open>weatherImpact\<close>,
  \<open>aiSummary\<close>), the POI list and \<open>generatedAt\<close> take no part in any decision and are
  left out. A field the mock result does not set (\<open>tolls\<close>, \<open>trafficLights\<close>) is an
  option.
\<close>

record route_step =
  stepDistanceMeters :: jsnum
  stepDurationSeconds :: jsnum

record score_details =
  timeScore :: jsnum
  distanceScore :: jsnum
  trafficScore :: jsnum
  weatherScore :: jsnum
  preferenceScore :: jsnum

record route =
  rid :: string
  distanceMeters :: jsnum
  durationSeconds :: jsnum
  score :: jsnum
  scoreDetails :: score_details
  steps :: "route_step list"
  points :: "point list"
  tolls :: "jsnum option"
  trafficLights :: "jsnum option"

record RoutePlanResult =
  recommendedRouteId :: string
  routes :: "route list"

record RoutePlanParams =
  preferences :: "string list option"
  considerTraffic :: "bool option"
  considerWeather :: "bool option"

record UserPrefs =
  avoidHighway :: bool
  avoidToll :: bool

text \<open>
  One element of \<open>data.route.paths\<close>, with its fields as \<open>parseInt\<close> and
  \<open>parseRoutePoints\<close> read them.
\<close>

record RawPath =
  rawDistance :: jsnum
  rawDuration :: jsnum
  rawSteps :: "route_step list"
  rawPoints :: "point list"
  rawTolls :: jsnum
  rawTrafficLights :: jsnum

subsection \<open>The collaborators\<close>

record TrafficStatus =
  expedite :: jsnum
  congested :: jsnum
  blocked :: jsnum

record TrafficResult =
  success :: bool
  status :: "TrafficStatus option"

record 'w WeatherResult =
  wSuccess :: bool
  live :: "'w option"

text \<open>
  What the outside world answers during one call of \<open>planRoute\<close>: the parsed path list
  of the direction request (\<open>None\<close> when geocoding, the request or \<open>JSON.parse\<close> throws
  inside the \<open>try\<close> block), the resolved origin, and the three service functions. The
  services catch their own exceptions and report them as \<open>success: false\<close>.
  \<open>evaluateWeatherImpact\<close> classifies the weather text; only the \<open>impact\<close> it returns
  is used in scoring, so it is a parameter.
\<close>

record 'w world =
  directionPaths :: "RawPath list option"
  origin :: point
  getWeatherByLocation :: "jsnum \<Rightarrow> jsnum \<Rightarrow> 'w WeatherResult"
  evaluateWeatherImpact :: "'w \<Rightarrow> jsnum"
  getTrafficByRectangle :: "jsnum \<Rightarrow> jsnum \<Rightarrow> jsnum \<Rightarrow> jsnum \<Rightarrow> TrafficResult"

text \<open>\<open>TrafficService.evaluateRouteTraffic\<close>; the value is the \<open>congestionRate\<close> field.\<close>

definition routeBounds :: "point list \<Rightarrow> jsnum \<times> jsnum \<times> jsnum \<times> jsnum" where
  "routeBounds pts =
     fold (\<lambda>p (minLng, maxLng, minLat, maxLat).
             (Math_min2 minLng (lng p), Math_max2 maxLng (lng p),
              Math_min2 minLat (lat p), Math_max2 maxLat (lat p)))
          pts (lng (hd pts), lng (hd pts), lat (hd pts), lat (hd pts))"

definition evaluateRouteTraffic ::
  "(jsnum \<Rightarrow> jsnum \<Rightarrow> jsnum \<Rightarrow> jsnum \<Rightarrow> TrafficResult) \<Rightarrow> point list \<Rightarrow> jsnum" where
  "evaluateRouteTraffic getTraffic pts =
     (if length pts < 2 then Fin 0
      else
        (case routeBounds pts of (minLng, maxLng, minLat, maxLat) \<Rightarrow>
          (let padding = rnd 0.01;
               result = getTraffic (minLng - padding) (minLat - padding)
                                   (maxLng + padding) (maxLat + padding)
           in case status result of
                None \<Rightarrow> Fin 0
              | Some st \<Rightarrow> if \<not> success result then Fin 0 else congested st + blocked st)))"

subsection \<open>Scoring\<close>

definition normalizeScore :: "route list \<Rightarrow> (route \<Rightarrow> jsnum) \<Rightarrow> jsnum \<Rightarrow> bool \<Rightarrow> jsnum" where
  "normalizeScore rs field v lowerIsBetter =
     (let vals = map field rs;
          mn = Math_min vals;
          mx = Math_max vals
      in if strict_eq mx mn then Fin 1
         else (let normalized = (v - mn) / (mx - mn)
               in if lowerIsBetter then Fin 1 - normalized else normalized))"

definition tollsPositive :: "route \<Rightarrow> bool" where
  "tollsPositive r = (case tolls r of None \<Rightarrow> False | Some t \<Rightarrow> Fin 0 < t)"

definition calculatePreferenceScore :: "route \<Rightarrow> string list \<Rightarrow> jsnum" where
  "calculatePreferenceScore r prefs =
     (let score0 = Fin 1;
          score1 = (if ''avoid_toll'' \<in> set prefs \<and> tollsPositive r
                    then score0 - rnd 0.2 else score0);
          score2 = (if ''fastest'' \<in> set prefs
                    then score1 + timeScore (scoreDetails r) * rnd 0.1 else score1)
      in Math_max2 (Fin 0) (Math_min2 (Fin 1) score2))"

record weights =
  wTime :: jsnum
  wDistance :: jsnum
  wTraffic :: jsnum
  wWeather :: jsnum
  wPreference :: jsnum

definition weightProfile :: "string list \<Rightarrow> weights" where
  "weightProfile prefs =
     (if ''fastest'' \<in> set prefs then
        \<lparr>wTime = rnd 0.4, wDistance = rnd 0.15, wTraffic = rnd 0.25,
         wWeather = rnd 0.1, wPreference = rnd 0.1\<rparr>
      else if ''shortest'' \<in> set prefs then
        \<lparr>wTime = rnd 0.2, wDistance = rnd 0.4, wTraffic = rnd 0.2,
         wWeather = rnd 0.1, wPreference = rnd 0.1\<rparr>
      else
        \<lparr>wTime = rnd 0.3, wDistance = rnd 0.2, wTraffic = rnd 0.25,
         wWeather = rnd 0.1, wPreference = rnd 0.15\<rparr>)"

definition calculateFinalScore :: "score_details \<Rightarrow> string list \<Rightarrow> jsnum" where
  "calculateFinalScore d prefs =
     (let w = weightProfile prefs
      in timeScore d * wTime w + distanceScore d * wDistance w + trafficScore d * wTraffic w
         + weatherScore d * wWeather w + preferenceScore d * wPreference w)"

subsection \<open>planRoute\<close>

definition mergePreferences :: "UserPrefs \<Rightarrow> RoutePlanParams \<Rightarrow> string list" where
  "mergePreferences userPrefs params =
     (let p0 = (case preferences params of None \<Rightarrow> [] | Some ps \<Rightarrow> ps);
          p1 = (if avoidHighway userPrefs \<and> ''avoid_highway'' \<notin> set p0
                then p0 @ [''avoid_highway''] else p0)
      in if avoidToll userPrefs \<and> ''avoid_toll'' \<notin> set p1
         then p1 @ [''avoid_toll''] else p1)"

definition parseRoute :: "nat \<times> RawPath \<Rightarrow> route" where
  "parseRoute ip =
     (case ip of (idx, p) \<Rightarrow>
       \<lparr>rid = ''r'' @ decimal (idx + 1),
        distanceMeters = rawDistance p,
        durationSeconds = rawDuration p,
        score = Fin 0,
        scoreDetails = \<lparr>timeScore = Fin 0, distanceScore = Fin 0, trafficScore = Fin 0,
                        weatherScore = Fin 0, preferenceScore = Fin 0\<rparr>,
        steps = take 10 (rawSteps p),
        points = rawPoints p,
        tolls = Some (rawTolls p),
        trafficLights = Some (rawTrafficLights p)\<rparr>)"

definition parseRoutes :: "RawPath list \<Rightarrow> route list" where
  "parseRoutes paths = map parseRoute (enumerate 0 (take 3 paths))"

text \<open>
  The body of the loop \<open>for (const route of routes)\<close>. The loop writes only score
  fields, and \<open>normalizeScore\<close> reads only \<open>durationSeconds\<close> and \<open>distanceMeters\<close> of
  the batch, so each route is scored against the batch as parsed. The fields are written
  in the order of the source: \<open>calculatePreferenceScore\<close> reads the \<open>timeScore\<close> just
  stored.
\<close>

definition scoreRoute ::
  "'w world \<Rightarrow> RoutePlanParams \<Rightarrow> string list \<Rightarrow> 'w option \<Rightarrow> route list \<Rightarrow> route \<Rightarrow> route" where
  "scoreRoute W params prefs weather rs r =
     (let tr = (if considerTraffic params \<noteq> Some False \<and> points r \<noteq> []
                then Fin 1 - evaluateRouteTraffic (getTrafficByRectangle W) (points r) / Fin 100
                else rnd 0.8);
          we = (case weather of
                  Some w \<Rightarrow> Fin 1 - evaluateWeatherImpact W w
                | None \<Rightarrow> Fin 1);
          ti = normalizeScore rs durationSeconds (durationSeconds r) True;
          di = normalizeScore rs distanceMeters (distanceMeters r) True;
          r1 = r\<lparr>scoreDetails := \<lparr>timeScore = ti, distanceScore = di, trafficScore = tr,
                                  weatherScore = we,
                                  preferenceScore = preferenceScore (scoreDetails r)\<rparr>\<rparr>;
          r2 = r1\<lparr>scoreDetails := (scoreDetails r1)
                      \<lparr>preferenceScore := calculatePreferenceScore r1 prefs\<rparr>\<rparr>
      in r2\<lparr>score := calculateFinalScore (scoreDetails r2) prefs\<rparr>)"

text \<open>
  \<open>routes.sort((a, b) => b.score - a.score)\<close>. \<open>Array.prototype.sort\<close> is stable; it is
  modelled as the stable insertion sort driven by the comparator: an element moves behind
  a later one only where the comparator is positive (a NaN result counts as zero).
\<close>

definition compareScore :: "route \<Rightarrow> route \<Rightarrow> jsnum" where
  "compareScore a b = score b - score a"

fun insertRoute :: "route \<Rightarrow> route list \<Rightarrow> route list" where
  "insertRoute x [] = [x]"
| "insertRoute x (y # ys) =
     (if Fin 0 < compareScore x y then y # insertRoute x ys else x # y # ys)"

definition sortRoutes :: "route list \<Rightarrow> route list" where
  "sortRoutes rs = foldr insertRoute rs []"

definition mockPoint :: "real \<Rightarrow> real \<Rightarrow> point" where
  "mockPoint x y = \<lparr>lng = rnd x, lat = rnd y\<rparr>"

definition mockStep :: "real \<Rightarrow> real \<Rightarrow> route_step" where
  "mockStep d t = \<lparr>stepDistanceMeters = Fin d, stepDurationSeconds = Fin t\<rparr>"

definition getMockResult :: RoutePlanResult where
  "getMockResult =
     \<lparr>recommendedRouteId = ''r1'',
      routes =
        [\<lparr>rid = ''r1'', distanceMeters = Fin 12500, durationSeconds = Fin 1500,
          score = rnd 0.92,
          scoreDetails = \<lparr>timeScore = rnd 0.9, distanceScore = rnd 0.85,
                          trafficScore = rnd 0.8, weatherScore = Fin 1,
                          preferenceScore = rnd 0.9\<rparr>,
          steps = [mockStep 800 120, mockStep 9000 1020, mockStep 2700 360],
          points = [mockPoint 116.397 39.908, mockPoint 116.41 39.91,
                    mockPoint 116.43 39.92, mockPoint 116.45 39.93],
          tolls = None, trafficLights = None\<rparr>,
         \<lparr>rid = ''r2'', distanceMeters = Fin 11000, durationSeconds = Fin 1620,
          score = rnd 0.88,
          scoreDetails = \<lparr>timeScore = rnd 0.8, distanceScore = rnd 0.9,
                          trafficScore = rnd 0.85, weatherScore = Fin 1,
                          preferenceScore = rnd 0.85\<rparr>,
          steps = [mockStep 600 90, mockStep 9400 1200, mockStep 1000 330],
          points = [mockPoint 116.397 39.908, mockPoint 116.40 39.905,
                    mockPoint 116.42 39.907, mockPoint 116.44 39.909],
          tolls = None, trafficLights = None\<rparr>]\<rparr>"

definition currentWeather :: "'w world \<Rightarrow> RoutePlanParams \<Rightarrow> 'w option" where
  "currentWeather W params =
     (if considerWeather params \<noteq> Some False then
        (let weatherResult = getWeatherByLocation W (lng (origin W)) (lat (origin W))
         in if wSuccess weatherResult \<and> live weatherResult \<noteq> None
            then live weatherResult else None)
      else None)"

definition scoreRoutes ::
  "'w world \<Rightarrow> RoutePlanParams \<Rightarrow> string list \<Rightarrow> route list \<Rightarrow> route list" where
  "scoreRoutes W params prefs rs =
     map (scoreRoute W params prefs (currentWeather W params) rs) rs"

definition recommendedOf :: "route list \<Rightarrow> string" where
  "recommendedOf rs =
     (case rs of [] \<Rightarrow> ''r1'' | r # _ \<Rightarrow> if rid r = [] then ''r1'' else rid r)"

text \<open>
  \<open>planRoute\<close>: the key is \<open>getAmapKey()\<close>, the empty string when none is configured.
  An exception inside the \<open>try\<close> block is caught and logged, and control falls through
  to the final \<open>return this.getMockResult()\<close>.
\<close>

definition planRoute ::
  "string \<Rightarrow> UserPrefs \<Rightarrow> 'w world \<Rightarrow> RoutePlanParams \<Rightarrow> RoutePlanResult" where
  "planRoute key userPrefs W params =
     (let prefs = mergePreferences userPrefs params
      in if key \<noteq> [] then
           (case directionPaths W of
              None \<Rightarrow> getMockResult
            | Some paths \<Rightarrow>
               (let parsed = parseRoutes paths
                in if length parsed = 0 then getMockResult
                   else (let sorted = sortRoutes (scoreRoutes W params prefs parsed)
                         in \<lparr>recommendedRouteId = recommendedOf sorted,
                             routes = sorted\<rparr>)))
         else getMockResult)"


section \<open>RouteServiceAbility: the reroute decision\<close>

definition calculateDistance :: "point \<Rightarrow> point \<Rightarrow> jsnum" where
  "calculateDistance p1 p2 =
     (let R = Fin 6371000;
          dLat = (lat p2 - lat p1) * Math_PI / Fin 180;
          dLng = (lng p2 - lng p1) * Math_PI / Fin 180;
          a = Math_sin (dLat / Fin 2) * Math_sin (dLat / Fin 2) +
              Math_cos (lat p1 * Math_PI / Fin 180) * Math_cos (lat p2 * Math_PI / Fin 180) *
              Math_sin (dLng / Fin 2) * Math_sin (dLng / Fin 2)
      in R * Fin 2 * Math_atan2 (Math_sqrt a) (Math_sqrt (Fin 1 - a)))"

fun totalDistance :: "point list \<Rightarrow> jsnum \<Rightarrow> jsnum" where
  "totalDistance (p # q # rest) acc = totalDistance (q # rest) (acc + calculateDistance p q)"
| "totalDistance _ acc = acc"

definition estimateDuration :: "point list \<Rightarrow> jsnum" where
  "estimateDuration pts =
     (if length pts < 2 then Fin 0
      else totalDistance pts (Fin 0) / Fin 1000 / Fin 40 * Fin 3600)"

text \<open>
  The fields of the service that \<open>suggestReroute\<close> reads; \<open>navRoute\<close> is the
  service's own \<open>currentRoute\<close>.
\<close>

record service =
  hasRouteEngine :: bool
  currentDestination :: string
  navRoute :: "point list"
  isNavigating :: bool

record RerouteEvent =
  newRoute :: RoutePlanResult
  timeSaved :: jsnum

definition rerouteParams :: RoutePlanParams where
  "rerouteParams =
     \<lparr>preferences = Some [''fastest''], considerTraffic = Some True,
      considerWeather = Some True\<rparr>"

definition oldDurationOf :: "service \<Rightarrow> jsnum" where
  "oldDurationOf svc =
     (if length (navRoute svc) > 0 then estimateDuration (navRoute svc) else Fin 0)"

text \<open>
  \<open>suggestReroute\<close>: the value is the payload of the \<open>REROUTE_EVENT_ID\<close> event when
  one is emitted (the notification follows it in the same branch), \<open>None\<close> otherwise.
\<close>

definition suggestReroute ::
  "string \<Rightarrow> UserPrefs \<Rightarrow> 'w world \<Rightarrow> service \<Rightarrow> RerouteEvent option" where
  "suggestReroute key userPrefs W svc =
     (if \<not> hasRouteEngine svc \<or> currentDestination svc = [] then None
      else
        (let planned = planRoute key userPrefs W rerouteParams
         in case routes planned of
              [] \<Rightarrow> None
            | bestRoute # _ \<Rightarrow>
               (let oldDuration = oldDurationOf svc;
                    newDuration = durationSeconds bestRoute
                in if strict_eq oldDuration (Fin 0) \<or> newDuration < oldDuration * rnd 0.8
                   then Some \<lparr>newRoute = planned,
                              timeSaved = Math_round ((oldDuration - newDuration) / Fin 60)\<rparr>
                   else None)))"

section \<open>TrafficEventService\<close>

datatype event_type = Accident | Construction | Control | Congestion | Fog | Rain | Other

datatype impact_level = Minor | Moderate | Severe

record TrafficEvent =
  ev_id :: string
  ev_type :: event_type
  location :: point
  impact :: impact_level
  delayMinutes :: "jsnum option"

record TrafficAlert =
  event :: TrafficEvent
  affectsRoute :: bool
  alternativeAvailable :: bool

text \<open>
  The fields of the service. \<open>lastEvents\<close> is a \<open>Map\<close>, kept as an association list in
  insertion order. A timer handle is a positive number; \<open>monitorTimer = 0\<close> means none.
\<close>

record monitor =
  isMonitoring :: bool
  monitorTimer :: nat
  currentRoute :: "point list"
  lastEvents :: "(string \<times> TrafficEvent) list"

subsection \<open>Geometry\<close>

definition toRad :: "jsnum \<Rightarrow> jsnum" where
  "toRad deg = deg * Math_PI / Fin 180"

definition pointToSegmentDistance :: "point \<Rightarrow> point \<Rightarrow> point \<Rightarrow> jsnum" where
  "pointToSegmentDistance pt segStart segEnd =
     (let R = Fin 6371000;
          avgLat = (lat segStart + lat segEnd) / Fin 2;
          dx = (lng pt - lng segStart) * Math_cos (toRad avgLat);
          dy = lat pt - lat segStart;
          sx = (lng segEnd - lng segStart) * Math_cos (toRad avgLat);
          sy = lat segEnd - lat segStart;
          t = Math_max2 (Fin 0) (Math_min2 (Fin 1) ((dx * sx + dy * sy) / (sx * sx + sy * sy)));
          closestX = lng segStart + t * (lng segEnd - lng segStart);
          closestY = lat segStart + t * (lat segEnd - lat segStart);
          distLng = (lng pt - closestX) * Math_cos (toRad avgLat);
          distLat = lat pt - closestY
      in Math_sqrt (distLng * distLng + distLat * distLat) * R * Math_PI / Fin 180)"

text \<open>The loop of \<open>calculateMinDistanceToRoute\<close> over the consecutive pairs.\<close>

fun minDistLoop :: "point \<Rightarrow> point list \<Rightarrow> jsnum \<Rightarrow> jsnum" where
  "minDistLoop pt (a # b # rest) minDist =
     minDistLoop pt (b # rest) (Math_min2 minDist (pointToSegmentDistance pt a b))"
| "minDistLoop pt _ minDist = minDist"

definition calculateMinDistanceToRoute :: "point list \<Rightarrow> point \<Rightarrow> jsnum" where
  "calculateMinDistanceToRoute rt pt = minDistLoop pt rt PInf"

text \<open>
  \<open>checkEventAffectsRoute\<close>; \<open>location\<close> is a required field of \<open>TrafficEvent\<close>, so
  the test \<open>!event.location\<close> never fires.
\<close>

definition checkEventAffectsRoute :: "point list \<Rightarrow> TrafficEvent \<Rightarrow> bool" where
  "checkEventAffectsRoute rt e =
     (if length rt = 0 then False
      else calculateMinDistanceToRoute rt (location e) < Fin 500)"

definition createAlert :: "TrafficEvent \<Rightarrow> TrafficAlert" where
  "createAlert e = \<lparr>event = e, affectsRoute = True, alternativeAvailable = True\<rparr>"

subsection \<open>One poll\<close>

text \<open>
  \<open>checkTrafficEvents\<close> is asynchronous: it runs up to \<open>await this.fetchTrafficEvents\<close>,
  and resumes when the request is answered, with whatever the fields of the service are
  by then. \<open>pollStarts\<close> is the part before the \<open>await\<close> (does the poll send a request?),
  \<open>pollResumes\<close> the part after it, given the events fetched: the alerts passed to
  \<open>notifyAlert\<close>, in order, and the monitor afterwards. A request that throws is caught
  and changes nothing. \<open>notifyAlert\<close> hands each alert to the registered callbacks and to
  the event bus; the one callback this repository registers (\<open>handleTrafficAlert\<close>) does
  not call back into the service, so the loop runs to its end on the same fields.
\<close>

definition pollStarts :: "string \<Rightarrow> monitor \<Rightarrow> bool" where
  "pollStarts key m = (\<not> length (currentRoute m) < 2 \<and> key \<noteq> [])"

fun checkNewEvents ::
  "point list \<Rightarrow> TrafficEvent list \<Rightarrow> (string \<times> TrafficEvent) list
     \<Rightarrow> TrafficAlert list \<times> (string \<times> TrafficEvent) list" where
  "checkNewEvents rt [] known = ([], known)"
| "checkNewEvents rt (e # es) known =
     (let isNew = (map_of known (ev_id e) = None);
          affects = checkEventAffectsRoute rt e;
          rest = checkNewEvents rt es (AList.update (ev_id e) e known)
      in ((if isNew \<and> affects then [createAlert e] else []) @ fst rest, snd rest))"

definition pollResumes :: "monitor \<Rightarrow> TrafficEvent list \<Rightarrow> TrafficAlert list \<times> monitor" where
  "pollResumes m events =
     (let checked = checkNewEvents (currentRoute m) events (lastEvents m);
          currentIds = set (map ev_id events)
      in (fst checked, m\<lparr>lastEvents := AList.restrict currentIds (snd checked)\<rparr>))"

text \<open>\<open>getActiveEvents\<close>: the values of \<open>lastEvents\<close>.\<close>

definition getActiveEvents :: "monitor \<Rightarrow> TrafficEvent list" where
  "getActiveEvents m = map snd (lastEvents m)"

subsection \<open>The service over time\<close>

text \<open>
  The program is single-threaded: between two \<open>await\<close>s a function runs to its end. The
  service therefore moves by whole actions: a call of one of its methods, an interval
  timer firing, or a pending request being answered. \<open>liveTimers\<close> are the interval
  timers not cleared, \<open>pending\<close> counts the requests sent and not yet answered.
\<close>

record system =
  mon :: monitor
  liveTimers :: "nat list"
  nextTimer :: nat
  pending :: nat

datatype action =
    StartMonitoring "point list"
  | StopMonitoring
  | UpdateRoute "point list"
  | TimerFires nat
  | FetchReturns "TrafficEvent list"
  | FetchThrows

definition initialSystem :: system where
  "initialSystem =
     \<lparr>mon = \<lparr>isMonitoring = False, monitorTimer = 0, currentRoute = [], lastEvents = []\<rparr>,
      liveTimers = [], nextTimer = 1, pending = 0\<rparr>"

definition checkTrafficEvents :: "string \<Rightarrow> system \<Rightarrow> system" where
  "checkTrafficEvents key s =
     (if pollStarts key (mon s) then s\<lparr>pending := pending s + 1\<rparr> else s)"

definition startMonitoring :: "string \<Rightarrow> point list \<Rightarrow> system \<Rightarrow> system" where
  "startMonitoring key routePoints s =
     (let s1 = s\<lparr>mon := (mon s)\<lparr>currentRoute := routePoints, isMonitoring := True\<rparr>\<rparr>;
          s2 = checkTrafficEvents key s1;
          h = nextTimer s2
      in s2\<lparr>mon := (mon s2)\<lparr>monitorTimer := h\<rparr>,
            liveTimers := h # liveTimers s2, nextTimer := h + 1\<rparr>)"

definition stopMonitoring :: "system \<Rightarrow> system" where
  "stopMonitoring s =
     (let m = mon s;
          timers = (if monitorTimer m \<noteq> 0 then removeAll (monitorTimer m) (liveTimers s)
                    else liveTimers s)
      in s\<lparr>mon := \<lparr>isMonitoring = False, monitorTimer = 0, currentRoute = [],
                    lastEvents = []\<rparr>,
           liveTimers := timers\<rparr>)"

definition updateRoute :: "point list \<Rightarrow> system \<Rightarrow> system" where
  "updateRoute routePoints s = s\<lparr>mon := (mon s)\<lparr>currentRoute := routePoints\<rparr>\<rparr>"

text \<open>
  One action: the alerts it emits and the system afterwards. An action that cannot
  happen (a timer that is not live, an answer with no request pending) changes nothing.
\<close>

fun step :: "string \<Rightarrow> system \<Rightarrow> action \<Rightarrow> TrafficAlert list \<times> system" where
  "step key s (StartMonitoring routePoints) = ([], startMonitoring key routePoints s)"
| "step key s StopMonitoring = ([], stopMonitoring s)"
| "step key s (UpdateRoute routePoints) = ([], updateRoute routePoints s)"
| "step key s (TimerFires h) =
     (if h \<in> set (liveTimers s) \<and> isMonitoring (mon s)
      then ([], checkTrafficEvents key s) else ([], s))"
| "step key s (FetchReturns events) =
     (if pending s = 0 then ([], s)
      else (let r = pollResumes (mon s) events
            in (fst r, s\<lparr>mon := snd r, pending := pending s - 1\<rparr>)))"
| "step key s FetchThrows =
     (if pending s = 0 then ([], s) else ([], s\<lparr>pending := pending s - 1\<rparr>))"

fun run :: "string \<Rightarrow> system \<Rightarrow> action list \<Rightarrow> TrafficAlert list \<times> system" where
  "run key s [] = ([], s)"
| "run key s (a # as) =
     (let r1 = step key s a; r2 = run key (snd r1) as
      in (fst r1 @ fst r2, snd r2))"


section \<open>Notions used in the statements\<close>

text \<open>
  The doubles: the infinities, NaN, and the finite values that rounding leaves alone.
  Every result of an arithmetic operator is one. \<open>sortKey\<close> reads a double other than NaN
  as a real number that falls as the double rises; it states the order the comparator of
  \<open>planRoute\<close> sorts by.
\<close>

definition isDouble :: "jsnum \<Rightarrow> bool" where
  "isDouble z = (case z of Fin r \<Rightarrow> rnd r = Fin r | _ \<Rightarrow> True)"

definition sortKey :: "jsnum \<Rightarrow> real" where
  "sortKey z = (case z of Fin r \<Rightarrow> - r | PInf \<Rightarrow> - (2 powi 1024) | NInf \<Rightarrow> 2 powi 1024
                | NaN \<Rightarrow> 0)"

text \<open>A finite number between two bounds.\<close>

definition inRange :: "real \<Rightarrow> real \<Rightarrow> jsnum \<Rightarrow> bool" where
  "inRange lo hi z = (case z of Fin r \<Rightarrow> lo \<le> r \<and> r \<le> hi | _ \<Rightarrow> False)"

text \<open>
  The candidates of one planning call in the order of the path source, with the scores
  the loop of \<open>planRoute\<close> gives them, before they are sorted.
\<close>

definition scoredCandidates ::
  "'w world \<Rightarrow> UserPrefs \<Rightarrow> RoutePlanParams \<Rightarrow> RawPath list \<Rightarrow> route list" where
  "scoredCandidates W userPrefs params paths =
     scoreRoutes W params (mergePreferences userPrefs params) (parseRoutes paths)"

text \<open>
  The preference score in the words of the specification: start at 1.0, subtract 0.2 if
  \<open>avoid_toll\<close> is requested and the route carries a toll cost, add \<open>0.1 * timeScore\<close> if
  \<open>fastest\<close> is requested, clamp to \<open>[0,1]\<close>. Whether the route carries a toll cost is a
  parameter: the specification says "nonzero" (\<open>spec_nonzeroTollCost\<close>), the code tests
  \<open>tolls > 0\<close> (\<open>tollsPositive\<close>).
\<close>

definition spec_clamp01 :: "jsnum \<Rightarrow> jsnum" where
  "spec_clamp01 x = (if x < Fin 0 then Fin 0 else if Fin 1 < x then Fin 1 else x)"

definition spec_preferenceScore :: "bool \<Rightarrow> bool \<Rightarrow> bool \<Rightarrow> jsnum \<Rightarrow> jsnum" where
  "spec_preferenceScore avoidTollRequested tollCost fastestRequested ts =
     (let s0 = Fin 1.0;
          s1 = (if avoidTollRequested \<and> tollCost then s0 - rnd 0.2 else s0);
          s2 = (if fastestRequested then s1 + rnd 0.1 * ts else s1)
      in spec_clamp01 s2)"

definition spec_nonzeroTollCost :: "route \<Rightarrow> bool" where
  "spec_nonzeroTollCost r = (case tolls r of None \<Rightarrow> False | Some t \<Rightarrow> t \<noteq> Fin 0)"

text \<open>
  Failure of a collaborator, as \<open>planRoute\<close> can observe it: the traffic service answers
  every rectangle without success or without a status; the weather service answers the
  origin without success or without a live reading.
\<close>

definition trafficFails :: "'w world \<Rightarrow> bool" where
  "trafficFails W = (\<forall>a b c d. \<not> success (getTrafficByRectangle W a b c d)
                               \<or> status (getTrafficByRectangle W a b c d) = None)"

definition weatherFails :: "'w world \<Rightarrow> bool" where
  "weatherFails W =
     (let weatherResult = getWeatherByLocation W (lng (origin W)) (lat (origin W))
      in \<not> wSuccess weatherResult \<or> live weatherResult = None)"

text \<open>
  The distances from a point to the segments of a route, one for each pair of consecutive
  points, as \<open>pointToSegmentDistance\<close> computes them. A point is near the route, as
  \<open>calculateMinDistanceToRoute\<close> and the test \<open>minDistance < 500\<close> see it, when none of
  these distances is NaN and one of them is below 500.
\<close>

definition segmentDistances :: "point list \<Rightarrow> point \<Rightarrow> jsnum list" where
  "segmentDistances rt pt = map (\<lambda>(a, b). pointToSegmentDistance pt a b) (zip rt (tl rt))"

definition nearRoute :: "point list \<Rightarrow> point \<Rightarrow> bool" where
  "nearRoute rt pt = (NaN \<notin> set (segmentDistances rt pt)
                       \<and> (\<exists>d \<in> set (segmentDistances rt pt). d < Fin 500))"

text \<open>
  The alerts of a list that are about the event id \<open>i\<close>; and the actions under which an
  id sighted once stays sighted: monitoring is not stopped, and every answered request
  reports the id again.
\<close>

definition alertsFor :: "string \<Rightarrow> TrafficAlert list \<Rightarrow> TrafficAlert list" where
  "alertsFor i alerts = filter (\<lambda>a. ev_id (event a) = i) alerts"


subsection \<open>Concrete inputs\<close>

definition fixturePoint :: "real \<Rightarrow> real \<Rightarrow> point" where
  "fixturePoint x y = \<lparr>lng = Fin x, lat = Fin y\<rparr>"

definition fixturePath :: "real \<Rightarrow> real \<Rightarrow> point list \<Rightarrow> RawPath" where
  "fixturePath d t pts =
     \<lparr>rawDistance = Fin d, rawDuration = Fin t, rawSteps = [], rawPoints = pts,
      rawTolls = Fin 0, rawTrafficLights = Fin 0\<rparr>"

text \<open>A world whose traffic and weather services both fail.\<close>

definition fixtureWorld :: "RawPath list option \<Rightarrow> unit world" where
  "fixtureWorld paths =
     \<lparr>directionPaths = paths,
      origin = fixturePoint 0 0,
      getWeatherByLocation = (\<lambda>x y. \<lparr>wSuccess = False, live = None\<rparr>),
      evaluateWeatherImpact = (\<lambda>w. Fin 0),
      getTrafficByRectangle = (\<lambda>a b c d. \<lparr>success = False, status = None\<rparr>)\<rparr>"

definition fixturePrefs :: UserPrefs where
  "fixturePrefs = \<lparr>avoidHighway = False, avoidToll = False\<rparr>"

definition fixtureParams :: RoutePlanParams where
  "fixtureParams = \<lparr>preferences = None, considerTraffic = None, considerWeather = None\<rparr>"

definition fixtureService :: "point list \<Rightarrow> service" where
  "fixtureService rt =
     \<lparr>hasRouteEngine = True, currentDestination = ''d'', navRoute = rt, isNavigating = True\<rparr>"

text \<open>One degree of longitude along the equator; and the same with its first point doubled.\<close>

definition twoPointRoute :: "point list" where
  "twoPointRoute = [fixturePoint 0 0, fixturePoint 1 0]"


text \<open>Half of the equator, about 20015 km.\<close>

definition halfEquator :: "point list" where
  "halfEquator = [fixturePoint 0 0, fixturePoint 180 0]"

text \<open>Three candidates; the first two tie on every field.\<close>

definition tiedPaths :: "RawPath list" where
  "tiedPaths = [fixturePath 12500 1500 [], fixturePath 12500 1500 [], fixturePath 13000 1620 []]"

text \<open>
  Three candidates whose first two composite scores are 0.89 in exact arithmetic and
  differ in the last place as the machine adds them.
\<close>

definition closePaths :: "RawPath list" where
  "closePaths = [fixturePath 11500 1200 [], fixturePath 10000 1260 [], fixturePath 15000 1500 []]"

text \<open>Two candidates; the duration of the first did not parse.\<close>

definition unparsedPaths :: "RawPath list" where
  "unparsedPaths = [(fixturePath 12500 1500 [])\<lparr>rawDuration := NaN\<rparr>, fixturePath 13000 1620 []]"

text \<open>A route with a toll of 15 and the best time score; the same with a time score of NaN;
  and the same with a toll of -5.\<close>

definition tollRoute :: route where
  "tollRoute =
     \<lparr>rid = ''r1'', distanceMeters = Fin 12500, durationSeconds = Fin 1500, score = Fin 0,
      scoreDetails = \<lparr>timeScore = Fin 1, distanceScore = Fin 1, trafficScore = rnd 0.8,
                      weatherScore = Fin 1, preferenceScore = Fin 0\<rparr>,
      steps = [], points = [], tolls = Some (Fin 15), trafficLights = Some (Fin 3)\<rparr>"

definition nanTimeRoute :: route where
  "nanTimeRoute = tollRoute\<lparr>scoreDetails := (scoreDetails tollRoute)\<lparr>timeScore := NaN\<rparr>\<rparr>"

definition negativeTollRoute :: route where
  "negativeTollRoute = tollRoute\<lparr>tolls := Some (Fin (- 5))\<rparr>"

definition fixtureEvent :: "string \<Rightarrow> point \<Rightarrow> TrafficEvent" where
  "fixtureEvent i p =
     \<lparr>ev_id = i, ev_type = Congestion, location = p, impact = Severe,
      delayMinutes = Some (Fin 20)\<rparr>"

text \<open>
  Events around \<open>twoPointRoute\<close>: on its first point; abeam its middle, \<open>1/256\<close> of a
  degree of latitude away (about 434 m) and \<open>5/1024\<close> of a degree away (about 543 m); and
  on its line one degree beyond its end (about 111 km from the end).
\<close>

definition nearEvent :: TrafficEvent where
  "nearEvent = fixtureEvent ''e1'' (fixturePoint 0 0)"

definition event434 :: TrafficEvent where
  "event434 = fixtureEvent ''e2'' (fixturePoint (1 / 2) (1 / 256))"

definition event543 :: TrafficEvent where
  "event543 = fixtureEvent ''e3'' (fixturePoint (1 / 2) (5 / 1024))"

definition eventBeyondEnd :: TrafficEvent where
  "eventBeyondEnd = fixtureEvent ''e4'' (fixturePoint 2 0)"

section \<open>Facts about rounding\<close>

subsection \<open>Rounding to an integer\<close>

lemma round_even_spec:
  "\<bar>x - of_int (round_even x)\<bar> < 1 / 2
   \<or> (\<bar>x - of_int (round_even x)\<bar> = 1 / 2 \<and> even (round_even x))"
proof -
  define f where "f = \<lfloor>x\<rfloor>"
  have "of_int f \<le> x" "x < of_int f + 1" unfolding f_def by linarith+
  then show ?thesis
    unfolding round_even_def Let_def f_def [symmetric] by (auto simp: abs_if)
qed

lemma round_even_eqI:
  assumes "\<bar>x - of_int n\<bar> < 1 / 2 \<or> (\<bar>x - of_int n\<bar> = 1 / 2 \<and> even n)"
  shows "round_even x = n"
proof (cases "of_int n \<le> x")
  case True
  with assms have fl: "\<lfloor>x\<rfloor> = n" by (auto simp: floor_eq_iff abs_if split: if_splits)
  show ?thesis
    using assms True unfolding round_even_def Let_def fl by (auto simp: abs_if split: if_splits)
next
  case False
  with assms have fl: "\<lfloor>x\<rfloor> = n - 1" by (auto simp: floor_eq_iff abs_if split: if_splits)
  show ?thesis
    using assms False unfolding round_even_def Let_def fl by (auto simp: abs_if split: if_splits)
qed

lemma round_even_of_int [simp]: "round_even (of_int n) = n"
  by (rule round_even_eqI) simp

lemma round_even_0 [simp]: "round_even 0 = 0"
  using round_even_of_int [of 0] by simp

lemma round_even_minus: "round_even (- x) = - round_even x"
  using round_even_spec [of x] by (intro round_even_eqI) (auto simp: abs_if split: if_splits)

lemma round_even_mono: "x \<le> y \<Longrightarrow> round_even x \<le> round_even y"
proof (rule ccontr)
  assume xy: "x \<le> y" and "\<not> round_even x \<le> round_even y"
  then have "round_even y + 1 \<le> round_even x" by simp
  then have gap: "of_int (round_even y) + 1 \<le> (of_int (round_even x) :: real)"
    by (metis of_int_1 of_int_add of_int_le_iff)
  from round_even_spec [of x] round_even_spec [of y] xy gap
  have ex: "x = of_int (round_even x) - 1 / 2" and ey: "y = of_int (round_even y) + 1 / 2"
    and px: "even (round_even x)" and py: "even (round_even y)"
    and eq: "of_int (round_even x) = (of_int (round_even y) :: real) + 1"
    by (auto simp: abs_if split: if_splits)
  from eq have "round_even x = round_even y + 1"
    by (metis of_int_1 of_int_add of_int_eq_iff)
  with px py show False by simp
qed

subsection \<open>The exponent\<close>

lemma find_upto_Some:
  "find P [i..j] = Some q \<Longrightarrow> i \<le> q \<and> q \<le> j \<and> P q \<and> (\<forall>k. i \<le> k \<and> k < q \<longrightarrow> \<not> P k)"
proof (induction i j rule: upto.induct)
  case (1 i j)
  show ?case
  proof (cases "i \<le> j")
    case False
    with "1.prems" show ?thesis by simp
  next
    case True
    then have rec: "[i..j] = i # [i + 1..j]" using upto.simps [of i j] by simp
    show ?thesis
    proof (cases "P i")
      case True
      with "1.prems" rec \<open>i \<le> j\<close> show ?thesis by auto
    next
      case False
      with "1.prems" rec have "find P [i + 1..j] = Some q" by simp
      from "1.IH" [OF True this]
      have a: "i + 1 \<le> q" "q \<le> j" "P q" and b: "\<And>k. i + 1 \<le> k \<Longrightarrow> k < q \<Longrightarrow> \<not> P k"
        by auto
      have "\<not> P k" if "i \<le> k" "k < q" for k
      proof (cases "k = i")
        case True
        with False show ?thesis by simp
      next
        case False
        with that have "i + 1 \<le> k" by simp
        then show ?thesis using that b by simp
      qed
      with a show ?thesis by auto
    qed
  qed
qed

lemma find_upto_None: "find P [i..j] = None \<Longrightarrow> i \<le> k \<Longrightarrow> k \<le> j \<Longrightarrow> \<not> P k"
  unfolding find_None_iff set_upto by simp

lemma exponent_Some:
  "find (\<lambda>q. a < 2 powi (q + 53)) [- 1074 .. 970] = Some q \<Longrightarrow> exponent a = q"
  by (simp only: exponent_def option.case)

lemma exponent_None:
  "find (\<lambda>q. a < 2 powi (q + 53)) [- 1074 .. 970] = None \<Longrightarrow> exponent a = 971"
  by (simp only: exponent_def option.case)

lemma exponent_range: "- 1074 \<le> exponent a \<and> exponent a \<le> 971"
proof (cases "find (\<lambda>q. a < 2 powi (q + 53)) [- 1074 .. 970]")
  case None
  show ?thesis unfolding exponent_None [OF None] by simp
next
  case (Some q)
  from find_upto_Some [OF Some] show ?thesis unfolding exponent_Some [OF Some] by simp
qed

lemma exponent_upper: "exponent a \<le> 970 \<Longrightarrow> a < 2 powi (exponent a + 53)"
proof (cases "find (\<lambda>q. a < 2 powi (q + 53)) [- 1074 .. 970]")
  case None
  assume "exponent a \<le> 970"
  then show ?thesis unfolding exponent_None [OF None] by simp
next
  case (Some q)
  from find_upto_Some [OF Some] show ?thesis unfolding exponent_Some [OF Some] by simp
qed

lemma exponent_lower:
  assumes "- 1074 < exponent a"
  shows "2 powi (exponent a + 52) \<le> a"
proof (cases "find (\<lambda>q. a < 2 powi (q + 53)) [- 1074 .. 970]")
  case None
  from find_upto_None [OF None, of 970] have "\<not> a < 2 powi (970 + 53)" by simp
  then have "2 powi 1023 \<le> a" by simp
  then show ?thesis unfolding exponent_None [OF None] by simp
next
  case (Some q)
  from find_upto_Some [OF Some]
  have "\<And>k. - 1074 \<le> k \<Longrightarrow> k < q \<Longrightarrow> \<not> a < 2 powi (k + 53)" by blast
  from this [of "q - 1"] assms [unfolded exponent_Some [OF Some]]
  have "\<not> a < 2 powi (q - 1 + 53)" by linarith
  moreover have "q - 1 + 53 = q + 52" by simp
  ultimately show ?thesis unfolding exponent_Some [OF Some] by simp
qed

lemma exponent_eqI:
  assumes "- 1074 \<le> q" and "q \<le> 971"
      and up: "q \<le> 970 \<Longrightarrow> a < 2 powi (q + 53)"
      and lo: "- 1074 < q \<Longrightarrow> 2 powi (q + 52) \<le> a"
  shows "exponent a = q"
proof (rule ccontr)
  assume ne: "exponent a \<noteq> q"
  note r = exponent_range [of a]
  show False
  proof (cases "exponent a < q")
    case True
    with assms r have "a < 2 powi (exponent a + 53)" "2 powi (q + 52) \<le> a"
      by (auto intro: exponent_upper)
    moreover have "(2::real) powi (exponent a + 53) \<le> 2 powi (q + 52)"
      using True by (intro power_int_increasing) auto
    ultimately show False by simp
  next
    case False
    with ne have gt: "q < exponent a" by simp
    with assms r have "a < 2 powi (q + 53)" "2 powi (exponent a + 52) \<le> a"
      by (auto intro: exponent_lower)
    moreover have "(2::real) powi (q + 53) \<le> 2 powi (exponent a + 52)"
      using gt by (intro power_int_increasing) auto
    ultimately show False by simp
  qed
qed

lemma exponent_mono:
  assumes "a \<le> b"
  shows "exponent a \<le> exponent b"
proof (rule ccontr)
  assume "\<not> exponent a \<le> exponent b"
  then have lt: "exponent b < exponent a" by simp
  note ra = exponent_range [of a] and rb = exponent_range [of b]
  from lt ra rb have "b < 2 powi (exponent b + 53)" "2 powi (exponent a + 52) \<le> a"
    by (auto intro: exponent_upper exponent_lower)
  moreover have "(2::real) powi (exponent b + 53) \<le> 2 powi (exponent a + 52)"
    using lt by (intro power_int_increasing) auto
  ultimately show False using assms by simp
qed

subsection \<open>Rounding to a double\<close>

lemma pow2_less_cancel: "(2::real) powi m < 2 powi n \<Longrightarrow> m < n"
proof (rule ccontr)
  assume a: "(2::real) powi m < 2 powi n" and "\<not> m < n"
  then have "(2::real) powi n \<le> 2 powi m" by (intro power_int_increasing) auto
  with a show False by simp
qed

lemma nearest_0 [simp]: "nearest 0 = 0"
  by (simp add: nearest_def)

lemma nearest_minus: "nearest (- x) = - nearest x"
  by (simp add: nearest_def round_even_minus)

lemma nearest_exact:
  assumes m: "\<bar>m\<bar> < 2 ^ 53" and e: "- 1074 \<le> e"
  shows "nearest (of_int m * 2 powi e) = of_int m * 2 powi e"
proof (cases "m = 0")
  case True
  then show ?thesis by simp
next
  case False
  define x :: real where "x = of_int m * 2 powi e"
  define q where "q = exponent \<bar>x\<bar>"
  have ax: "\<bar>x\<bar> = of_int \<bar>m\<bar> * 2 powi e"
    by (simp add: x_def abs_mult)
  have "(of_int \<bar>m\<bar> :: real) < 2 ^ 53"
    using m by (metis of_int_less_numeral_power_cancel_iff)
  then have "\<bar>x\<bar> < 2 ^ 53 * 2 powi e"
    unfolding ax by (intro mult_strict_right_mono) simp_all
  also have "\<dots> = 2 powi (e + 53)"
    by (simp add: power_int_add)
  finally have up: "\<bar>x\<bar> < 2 powi (e + 53)" .
  have qe: "q \<le> e"
  proof (cases "- 1074 < q")
    case True
    then have "2 powi (q + 52) \<le> \<bar>x\<bar>" unfolding q_def by (rule exponent_lower)
    with up have "(2::real) powi (q + 52) < 2 powi (e + 53)" by simp
    then have "q + 52 < e + 53" by (rule pow2_less_cancel)
    then show ?thesis by simp
  next
    case False
    with e show ?thesis by simp
  qed
  define k where "k = nat (e - q)"
  have ek: "e = q + int k" using qe by (simp add: k_def)
  have p: "(2::real) powi e = 2 ^ k * 2 powi q"
    unfolding ek by (simp add: power_int_add)
  have "x / 2 powi q = of_int (m * 2 ^ k)"
    by (simp add: x_def p)
  then have "round_even (x / 2 powi q) = m * 2 ^ k"
    by (simp only: round_even_of_int)
  then have "nearest x = of_int (m * 2 ^ k) * 2 powi q"
    by (simp add: nearest_def q_def)
  also have "\<dots> = x"
    by (simp add: x_def p)
  finally show ?thesis by (simp add: x_def)
qed

lemma nearest_le_pow:
  assumes "0 \<le> x" and "exponent x \<le> 970"
  shows "nearest x \<le> 2 powi (exponent x + 53)"
proof -
  define q where "q = exponent x"
  have "x < 2 powi (q + 53)" unfolding q_def using assms(2) by (rule exponent_upper)
  then have "x / 2 powi q \<le> 2 ^ 53"
    by (simp add: power_int_add field_simps)
  then have "round_even (x / 2 powi q) \<le> round_even (of_int (2 ^ 53))"
    by (intro round_even_mono) simp
  then have "round_even (x / 2 powi q) \<le> 2 ^ 53"
    by (simp only: round_even_of_int)
  then have "(of_int (round_even (x / 2 powi q)) :: real) \<le> 2 ^ 53"
    by (metis of_int_le_numeral_power_cancel_iff)
  then have "of_int (round_even (x / 2 powi q)) * 2 powi q \<le> 2 ^ 53 * (2::real) powi q"
    by (intro mult_right_mono) simp_all
  then show ?thesis
    using assms(1) by (simp add: nearest_def q_def power_int_add mult.commute)
qed

lemma nearest_ge_pow:
  assumes "0 \<le> x" and "- 1074 < exponent x"
  shows "2 powi (exponent x + 52) \<le> nearest x"
proof -
  define q where "q = exponent x"
  have "2 powi (q + 52) \<le> x" unfolding q_def using assms(2) by (rule exponent_lower)
  then have "2 ^ 52 \<le> x / 2 powi q"
    by (simp add: power_int_add field_simps)
  then have "round_even (of_int (2 ^ 52)) \<le> round_even (x / 2 powi q)"
    by (intro round_even_mono) simp
  then have "2 ^ 52 \<le> round_even (x / 2 powi q)"
    by (simp only: round_even_of_int)
  then have "(2 ^ 52 :: real) \<le> of_int (round_even (x / 2 powi q))"
    by (metis numeral_power_le_of_int_cancel_iff)
  then have "2 ^ 52 * (2::real) powi q \<le> of_int (round_even (x / 2 powi q)) * 2 powi q"
    by (intro mult_right_mono) simp_all
  then show ?thesis
    using assms(1) by (simp add: nearest_def q_def power_int_add mult.commute)
qed

lemma nearest_nonneg: "0 \<le> x \<Longrightarrow> 0 \<le> nearest x"
proof -
  assume "0 \<le> x"
  then have "round_even (of_int 0) \<le> round_even (x / 2 powi exponent \<bar>x\<bar>)"
    by (intro round_even_mono) simp
  then have "0 \<le> round_even (x / 2 powi exponent \<bar>x\<bar>)"
    by (simp only: round_even_of_int)
  then show ?thesis by (simp add: nearest_def)
qed

lemma nearest_mono_nonneg:
  assumes "0 \<le> x" and "x \<le> y"
  shows "nearest x \<le> nearest y"
proof -
  have y: "0 \<le> y" using assms by simp
  have le: "exponent x \<le> exponent y" using assms(2) by (rule exponent_mono)
  show ?thesis
  proof (cases "exponent x = exponent y")
    case True
    have "x / 2 powi exponent y \<le> y / 2 powi exponent y"
      using assms(2) by (intro divide_right_mono) simp_all
    then have "round_even (x / 2 powi exponent y) \<le> round_even (y / 2 powi exponent y)"
      by (rule round_even_mono)
    then have "(of_int (round_even (x / 2 powi exponent y)) :: real)
        \<le> of_int (round_even (y / 2 powi exponent y))"
      by simp
    then have "of_int (round_even (x / 2 powi exponent y)) * (2::real) powi exponent y
        \<le> of_int (round_even (y / 2 powi exponent y)) * 2 powi exponent y"
      by (intro mult_right_mono) simp_all
    then show ?thesis
      using assms(1) y True by (simp add: nearest_def)
  next
    case False
    with le have lt: "exponent x < exponent y" by simp
    have "exponent y \<le> 971" using exponent_range [of y] by simp
    with lt have "exponent x \<le> 970" by simp
    with assms(1) have "nearest x \<le> 2 powi (exponent x + 53)" by (rule nearest_le_pow)
    also have "(2::real) powi (exponent x + 53) \<le> 2 powi (exponent y + 52)"
      using lt by (intro power_int_increasing) auto
    also have "\<dots> \<le> nearest y"
    proof (rule nearest_ge_pow [OF y])
      show "- 1074 < exponent y" using lt exponent_range [of x] by simp
    qed
    finally show ?thesis .
  qed
qed

lemma nearest_mono:
  assumes "x \<le> y"
  shows "nearest x \<le> nearest y"
proof (cases "0 \<le> x")
  case True
  then show ?thesis using assms by (rule nearest_mono_nonneg)
next
  case False
  show ?thesis
  proof (cases "y \<le> 0")
    case True
    then have "nearest (- y) \<le> nearest (- x)"
      using assms by (intro nearest_mono_nonneg) simp_all
    then show ?thesis by (simp add: nearest_minus)
  next
    case y: False
    have "0 \<le> nearest (- x)" using False by (intro nearest_nonneg) simp
    moreover have "0 \<le> nearest y" using y by (intro nearest_nonneg) simp
    ultimately show ?thesis by (simp add: nearest_minus)
  qed
qed

lemma mantissa_le:
  assumes "0 \<le> x" and "exponent x \<le> 970"
  shows "round_even (x / 2 powi exponent x) \<le> 2 ^ 53"
proof -
  define q where "q = exponent x"
  have "x < 2 powi (q + 53)" unfolding q_def using assms(2) by (rule exponent_upper)
  then have "x / 2 powi q \<le> 2 ^ 53"
    by (simp add: power_int_add field_simps)
  then have "round_even (x / 2 powi q) \<le> round_even (of_int (2 ^ 53))"
    by (intro round_even_mono) simp
  then show ?thesis
    unfolding q_def by (simp only: round_even_of_int)
qed

lemma nearest_idem_nonneg:
  assumes x: "0 \<le> x" and fin: "nearest x < 2 powi 1024"
  shows "nearest (nearest x) = nearest x"
proof -
  define q where "q = exponent x"
  define M where "M = round_even (x / 2 powi q)"
  have nx: "nearest x = of_int M * 2 powi q"
    using x by (simp add: nearest_def M_def q_def)
  have q: "- 1074 \<le> q" "q \<le> 971" using exponent_range [of x] by (simp_all add: q_def)
  have M0: "0 \<le> M"
  proof -
    have "round_even (of_int 0) \<le> round_even (x / 2 powi q)"
      using x by (intro round_even_mono) simp
    then show ?thesis unfolding M_def by (simp only: round_even_of_int)
  qed
  have M_le: "M \<le> 2 ^ 53"
  proof (cases "q \<le> 970")
    case True
    then show ?thesis unfolding M_def q_def using mantissa_le [OF x] by simp
  next
    case False
    with q have q971: "q = 971" by simp
    have "of_int M * 2 powi 971 < (2::real) ^ 53 * 2 powi 971"
      using fin unfolding nx q971 by (simp add: power_int_add [symmetric])
    then have "(of_int M :: real) < 2 ^ 53"
      by (simp only: mult_less_cancel_right) (simp add: not_less)
    then have "M < 2 ^ 53" by (metis of_int_less_numeral_power_cancel_iff)
    then show ?thesis by simp
  qed
  show ?thesis
  proof (cases "M = 2 ^ 53")
    case False
    with M_le M0 have "\<bar>M\<bar> < 2 ^ 53" by simp
    then show ?thesis unfolding nx using q(1) by (rule nearest_exact)
  next
    case True
    have "q \<noteq> 971"
    proof
      assume "q = 971"
      then have "nearest x = 2 ^ 53 * 2 powi 971" by (simp add: nx True)
      also have "\<dots> = 2 powi 1024" by (simp add: power_int_add [symmetric])
      finally show False using fin by simp
    qed
    have "nearest x = of_int (2 ^ 52) * 2 powi (q + 1)"
      by (simp add: nx True power_int_add)
    moreover have "nearest (of_int (2 ^ 52) * 2 powi (q + 1)) = of_int (2 ^ 52) * 2 powi (q + 1)"
      using q(1) by (intro nearest_exact) simp_all
    ultimately show ?thesis by simp
  qed
qed

lemma nearest_idem:
  assumes "\<bar>nearest x\<bar> < 2 powi 1024"
  shows "nearest (nearest x) = nearest x"
proof (cases "0 \<le> x")
  case True
  then show ?thesis using assms by (intro nearest_idem_nonneg) simp_all
next
  case False
  then have "0 \<le> - x" by simp
  moreover have "nearest (- x) < 2 powi 1024"
    using assms by (simp add: nearest_minus)
  ultimately have "nearest (nearest (- x)) = nearest (- x)" by (rule nearest_idem_nonneg)
  then show ?thesis by (simp add: nearest_minus)
qed

lemma pow2_split: "q = int n + L \<Longrightarrow> (2::real) powi q = 2 ^ n * 2 powi L"
  by (simp add: power_int_add)

lemma nearest_grid: "\<exists>k::int. nearest x = of_int k * 2 powi (- 1074)"
proof -
  define q where "q = exponent \<bar>x\<bar>"
  define n where "n = nat (q + 1074)"
  have "- 1074 \<le> q" using exponent_range [of "\<bar>x\<bar>"] by (simp add: q_def)
  then have "q = int n + (- 1074)" by (simp add: n_def)
  then have "(2::real) powi q = 2 ^ n * 2 powi (- 1074)"
    by (rule pow2_split)
  then have "nearest x = of_int (round_even (x / 2 powi q) * 2 ^ n) * 2 powi (- 1074)"
    by (simp add: nearest_def q_def)
  then show ?thesis ..
qed

subsection \<open>The machine result\<close>

lemma rnd_not_NaN [simp]: "rnd x \<noteq> NaN"
  by (simp add: rnd_def Let_def)

lemma rnd_Fin_iff: "(rnd x = Fin r) = (nearest x = r \<and> \<bar>r\<bar> < 2 powi 1024)"
  by (auto simp: rnd_def Let_def)

lemma rnd_exact:
  assumes "\<bar>m\<bar> < 2 ^ 53" and "- 1074 \<le> e" and "e \<le> 971"
  shows "rnd (of_int m * 2 powi e) = Fin (of_int m * 2 powi e)"
proof -
  have "(of_int \<bar>m\<bar> :: real) < 2 ^ 53"
    using assms(1) by (metis of_int_less_numeral_power_cancel_iff)
  then have "of_int \<bar>m\<bar> * 2 powi e < (2::real) ^ 53 * 2 powi e"
    by (intro mult_strict_right_mono) simp_all
  also have "\<dots> = 2 powi (e + 53)" by (simp add: power_int_add)
  also have "\<dots> \<le> 2 powi 1024" using assms(3) by (intro power_int_increasing) auto
  finally have "\<bar>of_int m * 2 powi e\<bar> < (2::real) powi 1024"
    by (simp add: abs_mult)
  with nearest_exact [OF assms(1,2)] show ?thesis
    unfolding rnd_Fin_iff by simp
qed

lemma rnd_int: "\<bar>n\<bar> < 2 ^ 53 \<Longrightarrow> rnd (of_int n) = Fin (of_int n)"
  using rnd_exact [of n 0] by simp

lemma rnd_0 [simp]: "rnd 0 = Fin 0"
  using rnd_int [of 0] by simp

lemma rnd_1 [simp]: "rnd 1 = Fin 1"
  using rnd_int [of 1] by simp

lemma rnd_idem: "rnd x = Fin r \<Longrightarrow> rnd r = Fin r"
  unfolding rnd_Fin_iff using nearest_idem [of x] by auto

lemma rnd_grid: "rnd x = Fin r \<Longrightarrow> \<exists>k::int. r = of_int k * 2 powi (- 1074)"
  unfolding rnd_Fin_iff using nearest_grid [of x] by auto

lemma rnd_mono: "x \<le> y \<Longrightarrow> rnd x \<le> rnd y"
  using nearest_mono [of x y] by (auto simp: rnd_def Let_def)

lemma rnd_minus: "rnd (- x) = - rnd x"
  by (auto simp: rnd_def Let_def nearest_minus)

text \<open>Between two doubles only doubles between them are produced.\<close>

lemma rnd_between:
  assumes "lo \<le> x" and "x \<le> hi" and "rnd lo = Fin lo" and "rnd hi = Fin hi"
  shows "\<exists>r. rnd x = Fin r \<and> lo \<le> r \<and> r \<le> hi"
proof -
  have "Fin lo \<le> rnd x" "rnd x \<le> Fin hi"
    using rnd_mono [OF assms(1)] rnd_mono [OF assms(2)] assms(3,4) by simp_all
  then show ?thesis by (cases "rnd x") simp_all
qed

lemma rnd_pos: "2 powi (- 1074) \<le> x \<Longrightarrow> Fin 0 < rnd x"
proof -
  assume "2 powi (- 1074) \<le> x"
  then have "rnd (of_int 1 * 2 powi (- 1074)) \<le> rnd x" by (intro rnd_mono) simp
  then have "Fin (2 powi (- 1074)) \<le> rnd x"
    using rnd_exact [of 1 "- 1074"] by simp
  then show ?thesis by (cases "rnd x") (auto intro: less_le_trans [of 0 "2 powi (- 1074)"])
qed

lemma rnd_nonpos: "x \<le> 0 \<Longrightarrow> \<not> Fin 0 < rnd x"
  using rnd_mono [of x 0] by (cases "rnd x") auto

text \<open>The difference of two doubles rounds to zero only if they are equal.\<close>

lemma double_diff_sign:
  assumes "rnd a = Fin a" and "rnd b = Fin b"
  shows "(Fin 0 < rnd (b - a)) = (a < b)"
proof (cases "a < b")
  case False
  then show ?thesis using rnd_nonpos [of "b - a"] by simp
next
  case True
  from rnd_grid [OF assms(1)] rnd_grid [OF assms(2)]
  obtain i j :: int where a: "a = of_int i * 2 powi (- 1074)" and b: "b = of_int j * 2 powi (- 1074)"
    by auto
  have "of_int i * 2 powi (- 1074) < (of_int j :: real) * 2 powi (- 1074)"
    using True by (simp only: a b)
  then have "(of_int i :: real) < of_int j"
    by (simp only: mult_less_cancel_right) (simp add: not_less)
  then have "i + 1 \<le> j" by simp
  then have "(of_int (i + 1) :: real) \<le> of_int j" by (simp only: of_int_le_iff)
  then have "1 \<le> (of_int j :: real) - of_int i" by simp
  then have "1 * 2 powi (- 1074) \<le> ((of_int j :: real) - of_int i) * 2 powi (- 1074)"
    by (intro mult_right_mono) simp_all
  then have "2 powi (- 1074) \<le> b - a"
    by (simp add: a b algebra_simps)
  then show ?thesis using True by (simp add: rnd_pos)
qed

text \<open>Evaluation of \<open>rnd\<close> at a given value: the exponent and the mantissa are supplied.\<close>

lemma rnd_evalI:
  assumes q: "- 1074 \<le> q" "q \<le> 970"
      and lo: "2 powi (q + 52) \<le> \<bar>x\<bar> \<or> q = - 1074"
      and up: "\<bar>x\<bar> < 2 powi (q + 53)"
      and n: "\<bar>x / 2 powi q - of_int n\<bar> < 1 / 2
              \<or> (\<bar>x / 2 powi q - of_int n\<bar> = 1 / 2 \<and> even n)"
      and r: "r = of_int n * 2 powi q"
  shows "rnd x = Fin r"
proof -
  have e: "exponent \<bar>x\<bar> = q"
    using q lo up by (intro exponent_eqI) auto
  have m: "round_even (x / 2 powi q) = n"
    using n by (rule round_even_eqI)
  have nx: "nearest x = r"
    by (simp add: nearest_def e m r)
  define y where "y = x / 2 powi q"
  have "\<bar>y\<bar> < 2 ^ 53"
    using up by (simp add: y_def power_int_add field_simps abs_mult)
  moreover have "\<bar>y - of_int n\<bar> \<le> 1 / 2"
    using n by (auto simp: y_def)
  moreover have "\<bar>of_int n :: real\<bar> \<le> \<bar>y\<bar> + \<bar>y - of_int n\<bar>"
    by linarith
  ultimately have "\<bar>of_int n :: real\<bar> < 2 ^ 53 + 1"
    by linarith
  then have "(of_int \<bar>n\<bar> :: real) < of_int (2 ^ 53 + 1)" by simp
  then have "\<bar>n\<bar> < 2 ^ 53 + 1" by (simp only: of_int_less_iff)
  then have "\<bar>n\<bar> \<le> 2 ^ 53" by simp
  then have "(of_int \<bar>n\<bar> :: real) \<le> of_int (2 ^ 53)" by (simp only: of_int_le_iff)
  then have "\<bar>of_int n :: real\<bar> \<le> 2 ^ 53" by simp
  then have "\<bar>of_int n :: real\<bar> * 2 powi q \<le> 2 ^ 53 * 2 powi q"
    by (intro mult_right_mono) simp_all
  also have "\<dots> = 2 powi (q + 53)" by (simp add: power_int_add)
  also have "\<dots> \<le> 2 powi 1023" using q(2) by (intro power_int_increasing) auto
  also have "\<dots> < (2::real) powi 1024" by (intro power_int_strict_increasing) auto
  finally have "\<bar>r\<bar> < 2 powi 1024" by (simp add: r abs_mult)
  with nx show ?thesis by (simp add: rnd_Fin_iff)
qed

subsection \<open>Bounds on \<open>pi\<close>\<close>

lemma arctan_upper:
  assumes "0 \<le> x"
  shows "arctan x \<le> x"
proof -
  have "(\<lambda>t. t - arctan t) 0 \<le> (\<lambda>t. t - arctan t) x"
  proof (rule DERIV_nonneg_imp_nondecreasing [OF assms])
    fix t :: real
    have "((\<lambda>t. t - arctan t) has_real_derivative (1 - inverse (1 + t\<^sup>2))) (at t)"
      by (auto intro!: derivative_eq_intros)
    moreover have "inverse (1 + t\<^sup>2) \<le> 1"
      by (simp add: inverse_le_1_iff)
    ultimately show "\<exists>y. ((\<lambda>t. t - arctan t) has_real_derivative y) (at t) \<and> 0 \<le> y"
      by (intro exI [of _ "1 - inverse (1 + t\<^sup>2)"]) simp
  qed
  then show ?thesis by simp
qed

lemma arctan_lower:
  assumes "0 \<le> x"
  shows "x - x ^ 3 / 3 \<le> arctan x"
proof -
  have "(\<lambda>t. arctan t - t + t ^ 3 / 3) 0 \<le> (\<lambda>t. arctan t - t + t ^ 3 / 3) x"
  proof (rule DERIV_nonneg_imp_nondecreasing [OF assms])
    fix t :: real
    have d: "((\<lambda>t. arctan t - t + t ^ 3 / 3) has_real_derivative
          (inverse (1 + t\<^sup>2) - 1 + t\<^sup>2)) (at t)"
      by (auto intro!: derivative_eq_intros simp: power2_eq_square power3_eq_cube)
    have "(1 - t\<^sup>2) * (1 + t\<^sup>2) \<le> 1"
      by (simp add: algebra_simps power2_eq_square [symmetric] power_mult_distrib [symmetric])
    then have "1 - t\<^sup>2 \<le> 1 / (1 + t\<^sup>2)"
      by (simp add: pos_le_divide_eq add_pos_nonneg)
    then have "0 \<le> inverse (1 + t\<^sup>2) - 1 + t\<^sup>2"
      by (simp add: inverse_eq_divide)
    with d show "\<exists>y. ((\<lambda>t. arctan t - t + t ^ 3 / 3) has_real_derivative y) (at t) \<and> 0 \<le> y"
      by blast
  qed
  then show ?thesis by simp
qed

lemma pi_bounds: "201 / 64 \<le> pi \<and> pi \<le> 405 / 128"
proof -
  have u1: "arctan (1 / 7) \<le> 1 / 7" by (rule arctan_upper) simp
  have u2: "arctan (3 / 79) \<le> 3 / 79" by (rule arctan_upper) simp
  have l1: "1 / 7 - (1 / 7) ^ 3 / 3 \<le> arctan (1 / 7)" by (rule arctan_lower) simp
  have l2: "3 / 79 - (3 / 79) ^ 3 / 3 \<le> arctan (3 / 79)" by (rule arctan_lower) simp
  have p: "pi = 4 * (5 * arctan (1 / 7) + 2 * arctan (3 / 79))"
    using machin_Euler by simp
  from l1 l2 have "201 / 64 \<le> 4 * (5 * arctan (1 / 7) + 2 * arctan (3 / 79))"
    by (simp add: power3_eq_cube)
  moreover from u1 u2 have "4 * (5 * arctan (1 / 7) + 2 * arctan (3 / 79)) \<le> 405 / 128"
    by simp
  ultimately show ?thesis unfolding p [symmetric] by simp
qed

section \<open>Facts about numbers\<close>

lemma NaN_right [simp]:
  "x + NaN = NaN" "x - NaN = NaN" "x * NaN = NaN" "x / NaN = NaN"
  "Math_min2 x NaN = NaN" "Math_max2 x NaN = NaN"
  by (cases x; simp add: minus_jsnum_def)+

lemma NaN_left [simp]: "NaN - x = NaN"
  by (simp add: minus_jsnum_def)

lemma NaN_compare [simp]:
  "\<not> NaN < x" "\<not> x < NaN" "\<not> NaN \<le> x" "\<not> x \<le> NaN"
  by (cases x; simp)+

lemma sub_self: "x - x \<in> {Fin 0, NaN}"
  by (cases x) (simp_all add: minus_jsnum_def)

lemma zero_or_NaN_times_left: "a \<in> {Fin 0, NaN} \<Longrightarrow> a * b \<in> {Fin 0, NaN}"
  by (cases b) auto

lemma zero_or_NaN_times_right: "a \<in> {Fin 0, NaN} \<Longrightarrow> b * a \<in> {Fin 0, NaN}"
  by (cases b) auto

lemma zero_or_NaN_plus:
  "a \<in> {Fin 0, NaN} \<Longrightarrow> b \<in> {Fin 0, NaN} \<Longrightarrow> a + b \<in> {Fin 0, NaN}"
  by auto

lemma zero_or_NaN_divide: "a \<in> {Fin 0, NaN} \<Longrightarrow> b \<in> {Fin 0, NaN} \<Longrightarrow> a / b = NaN"
  by auto

lemma times_commute: "(a::jsnum) * b = b * a"
  by (cases a; cases b) (simp_all add: mult.commute)

lemma sub_zero [simp]: "Fin a - Fin 0 = rnd a"
  by (simp add: minus_jsnum_def)

lemma jsnum_le_less: "a \<noteq> NaN \<Longrightarrow> b \<noteq> NaN \<Longrightarrow> (a \<le> b) = (\<not> b < a)"
  by (cases a; cases b) auto

lemma jsnum_antisym: "(a::jsnum) \<le> b \<Longrightarrow> b \<le> a \<Longrightarrow> a = b"
  by (cases a; cases b) auto

lemma jsnum_le_neq: "(a::jsnum) \<le> b \<Longrightarrow> a \<noteq> b \<Longrightarrow> a < b"
  by (cases a; cases b) auto

subsection \<open>Doubles\<close>

lemma isDouble_rnd [simp]: "isDouble (rnd x)"
  by (cases "rnd x") (auto simp: isDouble_def dest: rnd_idem)

lemma isDouble_special [simp]: "isDouble PInf" "isDouble NInf" "isDouble NaN"
  by (simp_all add: isDouble_def)

lemma isDouble_plus [simp]: "isDouble (a + b)"
  by (cases a; cases b) simp_all

lemma isDouble_bound: "isDouble (Fin r) \<Longrightarrow> \<bar>r\<bar> < 2 powi 1024"
  by (simp add: isDouble_def rnd_Fin_iff)

text \<open>
  The comparator \<open>b - a\<close> of two doubles is positive exactly when \<open>a < b\<close>: the
  difference of two distinct doubles does not round to zero.
\<close>

lemma compare_sign:
  assumes "isDouble a" and "isDouble b" and "a \<noteq> NaN" and "b \<noteq> NaN"
  shows "(Fin 0 < b - a) = (a < b)"
proof (cases a)
  case a: (Fin x)
  show ?thesis
  proof (cases b)
    case (Fin y)
    with a assms(1,2) have "rnd x = Fin x" "rnd y = Fin y" by (simp_all add: isDouble_def)
    then have "(Fin 0 < rnd (y - x)) = (x < y)" by (rule double_diff_sign)
    then show ?thesis by (simp add: a Fin minus_jsnum_def)
  qed (use assms a in \<open>simp_all add: minus_jsnum_def\<close>)
next
  case PInf
  then show ?thesis using assms by (cases b) (simp_all add: minus_jsnum_def)
next
  case NInf
  then show ?thesis using assms by (cases b) (simp_all add: minus_jsnum_def)
next
  case NaN
  with assms show ?thesis by simp
qed

lemma sortKey_le:
  assumes "isDouble a" and "isDouble b" and "a \<noteq> NaN" and "b \<noteq> NaN"
  shows "(sortKey a \<le> sortKey b) = (b \<le> a)"
proof -
  define B :: real where "B = 2 powi 1024"
  have B: "0 < B" by (simp add: B_def)
  have fin: "\<bar>r\<bar> < B" if "isDouble (Fin r)" for r
    using isDouble_bound [OF that] by (simp add: B_def)
  show ?thesis
    using assms B fin [of "case a of Fin r \<Rightarrow> r | _ \<Rightarrow> 0"] fin [of "case b of Fin r \<Rightarrow> r | _ \<Rightarrow> 0"]
    unfolding sortKey_def B_def [symmetric]
    by (cases a; cases b) (auto simp: abs_if split: if_splits)
qed

lemma sortKey_eq:
  assumes "isDouble a" and "isDouble b" and "a \<noteq> NaN" and "b \<noteq> NaN"
  shows "(sortKey a = sortKey b) = (a = b)"
proof
  assume "sortKey a = sortKey b"
  then have "sortKey a \<le> sortKey b" "sortKey b \<le> sortKey a" by simp_all
  then have "b \<le> a" "a \<le> b"
    using assms by (simp_all add: sortKey_le)
  then show "a = b" by (intro jsnum_antisym)
qed simp

subsection \<open>Bounds\<close>

lemma inRange_Fin [simp]: "inRange lo hi (Fin r) = (lo \<le> r \<and> r \<le> hi)"
  by (simp add: inRange_def)

lemma inRangeE: "inRange lo hi z \<Longrightarrow> (\<And>r. z = Fin r \<Longrightarrow> lo \<le> r \<Longrightarrow> r \<le> hi \<Longrightarrow> P) \<Longrightarrow> P"
  by (cases z) (simp_all add: inRange_def)

lemma inRange_rnd:
  assumes "lo \<le> x" and "x \<le> hi" and "rnd lo = Fin lo" and "rnd hi = Fin hi"
  shows "inRange lo hi (rnd x)"
  using rnd_between [OF assms] by auto

lemma inRange_weaken: "inRange a b z \<Longrightarrow> lo \<le> a \<Longrightarrow> b \<le> hi \<Longrightarrow> inRange lo hi z"
  by (auto elim!: inRangeE)

lemma inRange_times:
  assumes "inRange a b x" and "inRange c d y" and "0 \<le> a" and "0 \<le> c"
      and "lo \<le> a * c" and "b * d \<le> hi" and "rnd lo = Fin lo" and "rnd hi = Fin hi"
  shows "inRange lo hi (x * y)"
proof -
  from assms(1) obtain r where x: "x = Fin r" and r: "a \<le> r" "r \<le> b" by (rule inRangeE)
  from assms(2) obtain s where y: "y = Fin s" and s: "c \<le> s" "s \<le> d" by (rule inRangeE)
  have "a * c \<le> r * s" using r s assms(3,4) by (intro mult_mono) simp_all
  moreover have "r * s \<le> b * d" using r s assms(3,4) by (intro mult_mono) simp_all
  ultimately show ?thesis
    unfolding x y times_jsnum.simps using assms(5-8) by (intro inRange_rnd) simp_all
qed

lemma inRange_divide:
  assumes "inRange a b x" and "inRange c d y" and "0 \<le> a" and "0 < c"
      and "lo \<le> a / d" and "b / c \<le> hi" and "rnd lo = Fin lo" and "rnd hi = Fin hi"
  shows "inRange lo hi (x / y)"
proof -
  from assms(1) obtain r where x: "x = Fin r" and r: "a \<le> r" "r \<le> b" by (rule inRangeE)
  from assms(2) obtain s where y: "y = Fin s" and s: "c \<le> s" "s \<le> d" by (rule inRangeE)
  have s0: "0 < s" "s \<noteq> 0" using s assms(4) by simp_all
  have "a / d \<le> r / s" using r s assms(3,4) s0 by (intro frac_le) simp_all
  moreover have "r / s \<le> b / c" using r s assms(3,4) by (intro frac_le) simp_all
  ultimately show ?thesis
    unfolding x y using s0 assms(5-8) by (simp del: inRange_Fin) (intro inRange_rnd; simp)
qed

lemma inRange_plus:
  assumes "inRange a b x" and "inRange c d y"
      and "lo \<le> a + c" and "b + d \<le> hi" and "rnd lo = Fin lo" and "rnd hi = Fin hi"
  shows "inRange lo hi (x + y)"
proof -
  from assms(1) obtain r where x: "x = Fin r" and r: "a \<le> r" "r \<le> b" by (rule inRangeE)
  from assms(2) obtain s where y: "y = Fin s" and s: "c \<le> s" "s \<le> d" by (rule inRangeE)
  show ?thesis
    unfolding x y plus_jsnum.simps using r s assms(3-6) by (intro inRange_rnd) simp_all
qed

lemma inRange_sqrt:
  assumes "inRange a b x" and "0 \<le> a" and "lo\<^sup>2 \<le> a" and "b \<le> hi\<^sup>2" and "0 \<le> lo" and "0 \<le> hi"
      and "rnd lo = Fin lo" and "rnd hi = Fin hi"
  shows "inRange lo hi (Math_sqrt x)"
proof -
  from assms(1) obtain r where x: "x = Fin r" and r: "a \<le> r" "r \<le> b" by (rule inRangeE)
  have "lo \<le> sqrt r"
    using assms(3,5) r by (intro real_le_rsqrt) simp
  moreover have "sqrt r \<le> hi"
    using assms(4,6) r by (intro real_le_lsqrt) simp_all
  ultimately show ?thesis
    unfolding x using assms(2,7,8) r by (simp del: inRange_Fin) (intro inRange_rnd; simp)
qed

text \<open>Integers below \<open>2^53\<close> are doubles; so are the literals met in the proofs.\<close>

lemma rnd_numeral [simp]: "(numeral n :: int) < 2 ^ 53 \<Longrightarrow> rnd (numeral n) = Fin (numeral n)"
  using rnd_int [of "numeral n"] by simp

lemma rnd_dyadic:
  assumes "\<bar>m\<bar> < 2 ^ 53" and "k \<le> 1074"
  shows "rnd (of_int m / 2 ^ k) = Fin (of_int m / 2 ^ k)"
proof -
  have "(2::real) powi (- int k) = 1 / 2 ^ k"
    by (simp add: power_int_minus field_simps)
  with rnd_exact [OF assms(1), of "- int k"] assms(2) show ?thesis by simp
qed

lemma Math_PI_bounds: "inRange (201 / 64) (405 / 128) Math_PI"
proof -
  have "rnd (201 / 64) = Fin (201 / 64)" using rnd_dyadic [of 201 6] by simp
  moreover have "rnd (405 / 128) = Fin (405 / 128)" using rnd_dyadic [of 405 7] by simp
  ultimately show ?thesis
    unfolding Math_PI_def using pi_bounds by (intro inRange_rnd) simp_all
qed

lemma lit_01: "inRange (1 / 16) (1 / 8) (rnd 0.1)"
  using rnd_dyadic [of 1 4] rnd_dyadic [of 1 3] by (intro inRange_rnd) simp_all

lemma lit_02: "inRange (1 / 8) (1 / 4) (rnd 0.2)"
  using rnd_dyadic [of 1 3] rnd_dyadic [of 1 2] by (intro inRange_rnd) simp_all

lemma lit_08: "inRange (51 / 64) (103 / 128) (rnd 0.8)"
  using rnd_dyadic [of 51 6] rnd_dyadic [of 103 7] by (intro inRange_rnd) simp_all

text \<open>
  The doubles that the decimal literals met below denote, each with the mantissa and the
  exponent that \<open>rnd_evalI\<close> asks for.
\<close>

lemma literal_values:
  "rnd (1 / 10) = Fin (3602879701896397 / 36028797018963968)"
  "rnd (1 / 5) = Fin (3602879701896397 / 18014398509481984)"
  "rnd (4 / 5) = Fin (3602879701896397 / 4503599627370496)"
  "rnd (9 / 10) = Fin (8106479329266893 / 9007199254740992)"
  "rnd (3 / 10) = Fin (5404319552844595 / 18014398509481984)"
  "rnd (1 / 4) = Fin (1 / 4)"
  "rnd (3 / 20) = Fin (5404319552844595 / 36028797018963968)"
  "rnd (19 / 20) = Fin (4278419646001971 / 4503599627370496)"
  "rnd (45000000000000007 / 100000000000000000) = Fin (4053239664633447 / 9007199254740992)"
  "rnd (89 / 100) = Fin (8016407336719483 / 9007199254740992)"
  "rnd (8899999999999999 / 10000000000000000) = Fin (4008203668359741 / 4503599627370496)"
  subgoal by (rule rnd_evalI [where n = "7205759403792794" and q = "- 56"]; simp)
  subgoal by (rule rnd_evalI [where n = "7205759403792794" and q = "- 55"]; simp)
  subgoal by (rule rnd_evalI [where n = "7205759403792794" and q = "- 53"]; simp)
  subgoal by (rule rnd_evalI [where n = "8106479329266893" and q = "- 53"]; simp)
  subgoal by (rule rnd_evalI [where n = "5404319552844595" and q = "- 54"]; simp)
  subgoal by (rule rnd_evalI [where n = "4503599627370496" and q = "- 54"]; simp)
  subgoal by (rule rnd_evalI [where n = "5404319552844595" and q = "- 55"]; simp)
  subgoal by (rule rnd_evalI [where n = "8556839292003942" and q = "- 53"]; simp)
  subgoal by (rule rnd_evalI [where n = "8106479329266894" and q = "- 54"]; simp)
  subgoal by (rule rnd_evalI [where n = "8016407336719483" and q = "- 53"]; simp)
  subgoal by (rule rnd_evalI [where n = "8016407336719482" and q = "- 53"]; simp)
  done

text \<open>The rules by which a sum, difference or product of finite numbers is a rounding.\<close>

lemmas finite_arith =
  minus_jsnum_def uminus_jsnum.simps plus_jsnum.simps times_jsnum.simps

section \<open>Degenerate segments\<close>

text \<open>
  With \<open>segStart = segEnd\<close> both \<open>sx\<close> and \<open>sy\<close> are \<open>0\<close> (or NaN, when a coordinate is
  not finite), so numerator and denominator of the projection parameter are both \<open>0\<close> or
  NaN and the quotient is NaN; it then spreads through \<open>Math.min\<close>, \<open>Math.max\<close> and the
  square root.
\<close>

lemma degenerate_NaN: "pointToSegmentDistance pt s s = NaN"
proof -
  define c where "c = Math_cos (toRad ((lat s + lat s) / Fin 2))"
  define dx where "dx = (lng pt - lng s) * c"
  define dy where "dy = lat pt - lat s"
  have sx: "(lng s - lng s) * c \<in> {Fin 0, NaN}"
    by (rule zero_or_NaN_times_left [OF sub_self])
  have sy: "lat s - lat s \<in> {Fin 0, NaN}"
    by (rule sub_self)
  have num: "dx * ((lng s - lng s) * c) + dy * (lat s - lat s) \<in> {Fin 0, NaN}"
    by (intro zero_or_NaN_plus zero_or_NaN_times_right sx sy)
  have den: "(lng s - lng s) * c * ((lng s - lng s) * c) + (lat s - lat s) * (lat s - lat s)
      \<in> {Fin 0, NaN}"
    by (intro zero_or_NaN_plus zero_or_NaN_times_right sx sy)
  have t: "(dx * ((lng s - lng s) * c) + dy * (lat s - lat s)) /
        ((lng s - lng s) * c * ((lng s - lng s) * c) + (lat s - lat s) * (lat s - lat s)) = NaN"
    by (rule zero_or_NaN_divide [OF num den])
  show ?thesis
    unfolding pointToSegmentDistance_def Let_def
    using t by (simp add: c_def dx_def dy_def)
qed

lemma minDistLoop_NaN: "minDistLoop pt rt NaN = NaN"
  by (induction pt rt NaN rule: minDistLoop.induct) simp_all

lemma minDistLoop_degenerate: "minDistLoop pt (xs @ s # s # ys) acc = NaN"
proof (induction xs arbitrary: acc)
  case Nil
  show ?case by (cases ys) (simp_all add: degenerate_NaN minDistLoop_NaN)
next
  case (Cons x xs)
  show ?case
  proof (cases xs)
    case Nil
    then show ?thesis
      using Cons.IH [of "Math_min2 acc (pointToSegmentDistance pt x s)"] by simp
  next
    case (Cons y zs)
    then show ?thesis
      using Cons.IH [of "Math_min2 acc (pointToSegmentDistance pt x y)"] by simp
  qed
qed

text \<open>
  C10. For a degenerate segment (\<open>segStart = segEnd\<close>) \<open>pointToSegmentDistance\<close> returns
  NaN, whatever the point; the comparison of that value with 500 is false; a route made of
  the degenerate segment alone never marks an event as affecting the route; and, NaN
  being absorbed by \<open>Math.min\<close>, neither does any route that contains such a segment.
\<close>

theorem degenerate_segment_never_affects:
  "pointToSegmentDistance pt s s = NaN
   \<and> \<not> pointToSegmentDistance pt s s < Fin 500
   \<and> \<not> checkEventAffectsRoute [s, s] e
   \<and> \<not> checkEventAffectsRoute (xs @ s # s # ys) e"
  using minDistLoop_degenerate [of "location e" "[]" s "[]" PInf]
  by (simp add: degenerate_NaN checkEventAffectsRoute_def calculateMinDistanceToRoute_def
      minDistLoop_degenerate)

text \<open>
  The same at a concrete input: an event lying on the doubled point of a route is not
  seen to affect it.
\<close>

theorem degenerate_segment_never_affects_witness:
  "pointToSegmentDistance (fixturePoint 0 0) (fixturePoint 0 0) (fixturePoint 0 0) = NaN
   \<and> \<not> checkEventAffectsRoute [fixturePoint 0 0, fixturePoint 0 0] nearEvent"
  using degenerate_segment_never_affects [of "fixturePoint 0 0" "fixturePoint 0 0" nearEvent]
  by simp

section \<open>Normalisation\<close>

lemma fold_min_const:
  "\<forall>x \<in> set xs. x = c \<Longrightarrow> c \<noteq> NaN \<Longrightarrow> acc = c \<or> (acc = PInf \<and> xs \<noteq> []) \<Longrightarrow>
   fold (\<lambda>x a. Math_min2 a x) xs acc = c"
proof (induction xs arbitrary: acc)
  case Nil
  then show ?case by simp
next
  case (Cons x xs)
  have "Math_min2 acc c = c" using Cons.prems by (cases c) auto
  with Cons show ?case by simp
qed

lemma fold_max_const:
  "\<forall>x \<in> set xs. x = c \<Longrightarrow> c \<noteq> NaN \<Longrightarrow> acc = c \<or> (acc = NInf \<and> xs \<noteq> []) \<Longrightarrow>
   fold (\<lambda>x a. Math_max2 a x) xs acc = c"
proof (induction xs arbitrary: acc)
  case Nil
  then show ?case by simp
next
  case (Cons x xs)
  have "Math_max2 acc c = c" using Cons.prems by (cases c) auto
  with Cons show ?case by simp
qed

text \<open>
  C8. In a non-empty batch whose values of the field are all equal (to a number, so that
  \<open>max === min\<close> holds), \<open>normalizeScore\<close> returns 1 under \<open>lowerIsBetter = true\<close> and
  under \<open>lowerIsBetter = false\<close>, for every target value and so for every member.
\<close>

theorem normalizeScore_flat_batch:
  assumes "rs \<noteq> []" and "\<forall>r \<in> set rs. field r = c" and "c \<noteq> NaN"
  shows "normalizeScore rs field v True = Fin 1 \<and> normalizeScore rs field v False = Fin 1"
proof -
  have "Math_min (map field rs) = c"
    unfolding Math_min_def using assms by (intro fold_min_const) auto
  moreover have "Math_max (map field rs) = c"
    unfolding Math_max_def using assms by (intro fold_max_const) auto
  ultimately show ?thesis
    using assms(3) by (simp add: normalizeScore_def strict_eq_def)
qed

theorem normalizeScore_flat_batch_witness:
  "[tollRoute, tollRoute] \<noteq> []
   \<and> map durationSeconds [tollRoute, tollRoute] = [Fin 1500, Fin 1500]
   \<and> Fin 1500 \<noteq> NaN
   \<and> normalizeScore [tollRoute, tollRoute] durationSeconds (Fin 1500) True = Fin 1
   \<and> normalizeScore [tollRoute, tollRoute] durationSeconds (Fin 1500) False = Fin 1"
proof -
  have h1: "[tollRoute, tollRoute] \<noteq> []" by simp
  have h2: "\<forall>r \<in> set [tollRoute, tollRoute]. durationSeconds r = Fin 1500"
    by (simp add: tollRoute_def)
  have h3: "Fin 1500 \<noteq> NaN" by simp
  from normalizeScore_flat_batch [OF h1 h2 h3, of "Fin 1500"] h1 h2 h3
  show ?thesis by simp
qed

section \<open>The preference score\<close>

lemma clamp_code: "Math_max2 (Fin 0) (Math_min2 (Fin 1) x) = spec_clamp01 x"
  by (cases x) (auto simp: spec_clamp01_def)

lemma clamp01_range: "x \<noteq> NaN \<Longrightarrow> Fin 0 \<le> spec_clamp01 x \<and> spec_clamp01 x \<le> Fin 1"
  by (cases x) (auto simp: spec_clamp01_def)

lemma tolls_agree:
  "\<forall>t. tolls r = Some t \<longrightarrow> Fin 0 \<le> t \<Longrightarrow> tollsPositive r = spec_nonzeroTollCost r"
  unfolding tollsPositive_def spec_nonzeroTollCost_def
  by (cases "tolls r") (auto elim: less_eq_jsnum.elims)

text \<open>The sum under the clamp is NaN only if the time score is.\<close>

lemma one_minus_lit_02: "inRange (3 / 4) (7 / 8) (Fin 1 - rnd 0.2)"
proof -
  from lit_02 obtain d where d: "rnd 0.2 = Fin d" "1 / 8 \<le> d" "d \<le> 1 / 4"
    by (rule inRangeE)
  have "inRange (3 / 4) (7 / 8) (rnd (1 + - d))"
    using d(2,3) rnd_dyadic [of 3 2] rnd_dyadic [of 7 3] by (intro inRange_rnd) simp_all
  then show ?thesis using d(1) by (simp add: minus_jsnum_def)
qed

lemma preference_sum_not_NaN:
  assumes "ts \<noteq> NaN" and "s1 = Fin 1 \<or> s1 = Fin 1 - rnd 0.2"
  shows "s1 + ts * rnd 0.1 \<noteq> NaN"
proof -
  from lit_01 obtain c where c: "rnd 0.1 = Fin c" "1 / 16 \<le> c"
    by (rule inRangeE)
  from assms(2) one_minus_lit_02 obtain u where u: "s1 = Fin u"
    by (auto elim: inRangeE)
  have "ts * Fin c \<noteq> NaN"
    using assms(1) c(2) by (cases ts) auto
  then show ?thesis
    unfolding c(1) u by (cases "ts * Fin c") simp_all
qed

lemma preference_arith:
  "Fin 1 - Fin (3602879701896397 / 18014398509481984) = Fin (3602879701896397 / 4503599627370496)"
  "Fin 1 * Fin (3602879701896397 / 36028797018963968)
     = Fin (3602879701896397 / 36028797018963968)"
  "Fin (3602879701896397 / 4503599627370496) + Fin (3602879701896397 / 36028797018963968)
     = Fin (8106479329266893 / 9007199254740992)"
  subgoal by (simp only: finite_arith)
    (rule rnd_evalI [where n = "7205759403792794" and q = "- 53"]; simp)
  subgoal by (simp only: finite_arith)
    (rule rnd_evalI [where n = "7205759403792794" and q = "- 56"]; simp)
  subgoal by (simp only: finite_arith)
    (rule rnd_evalI [where n = "8106479329266893" and q = "- 53"]; simp)
  done

text \<open>
  C9, as the code has it. For every route and preference list,
  \<open>calculatePreferenceScore\<close> equals the preference score of the specification with the
  toll condition read as "a toll cost greater than 0", which is the specification's
  "nonzero toll cost" whenever the toll cost is not negative. The result lies in \<open>[0,1]\<close>
  whenever \<open>fastest\<close> is not requested or the time score is not NaN; when \<open>fastest\<close> is
  requested and the time score is NaN, the result is NaN.
\<close>

theorem calculatePreferenceScore_spec:
  "calculatePreferenceScore r prefs =
     spec_preferenceScore (''avoid_toll'' \<in> set prefs) (tollsPositive r)
       (''fastest'' \<in> set prefs) (timeScore (scoreDetails r))
   \<and> ((\<forall>t. tolls r = Some t \<longrightarrow> Fin 0 \<le> t) \<longrightarrow> tollsPositive r = spec_nonzeroTollCost r)
   \<and> (''fastest'' \<notin> set prefs \<or> timeScore (scoreDetails r) \<noteq> NaN \<longrightarrow>
        Fin 0 \<le> calculatePreferenceScore r prefs \<and> calculatePreferenceScore r prefs \<le> Fin 1)
   \<and> (''fastest'' \<in> set prefs \<and> timeScore (scoreDetails r) = NaN \<longrightarrow>
        calculatePreferenceScore r prefs = NaN)"
proof -
  define ts where "ts = timeScore (scoreDetails r)"
  define s1 where
    "s1 = (if ''avoid_toll'' \<in> set prefs \<and> tollsPositive r then Fin 1 - rnd 0.2 else Fin 1)"
  define s2 where "s2 = (if ''fastest'' \<in> set prefs then s1 + ts * rnd 0.1 else s1)"
  have code: "calculatePreferenceScore r prefs = spec_clamp01 s2"
    by (simp add: calculatePreferenceScore_def Let_def clamp_code s2_def s1_def ts_def)
  have eq: "calculatePreferenceScore r prefs =
     spec_preferenceScore (''avoid_toll'' \<in> set prefs) (tollsPositive r)
       (''fastest'' \<in> set prefs) (timeScore (scoreDetails r))"
    unfolding code
    by (simp add: spec_preferenceScore_def Let_def s2_def s1_def ts_def times_commute)
  have s1: "s1 = Fin 1 \<or> s1 = Fin 1 - rnd 0.2"
    by (simp add: s1_def)
  then have s1_num: "s1 \<noteq> NaN"
    using one_minus_lit_02 by (auto elim: inRangeE)
  have range: "Fin 0 \<le> spec_clamp01 s2 \<and> spec_clamp01 s2 \<le> Fin 1"
    if "''fastest'' \<notin> set prefs \<or> ts \<noteq> NaN"
  proof (rule clamp01_range)
    show "s2 \<noteq> NaN"
      using that s1_num preference_sum_not_NaN [OF _ s1, of ts] by (auto simp: s2_def)
  qed
  have nan: "spec_clamp01 s2 = NaN" if "''fastest'' \<in> set prefs \<and> ts = NaN"
    using that by (simp add: s2_def spec_clamp01_def)
  show ?thesis
    using eq tolls_agree [of r] range nan unfolding code ts_def by blast
qed

text \<open>
  A route with a toll of 15 and a time score of 1, under \<open>avoid_toll\<close> and \<open>fastest\<close>: the
  score is \<open>1 - 0.2 + 1 * 0.1\<close>, which the machine adds up to 0.9. The same route with
  a time score of NaN under \<open>fastest\<close>: NaN.
\<close>

theorem calculatePreferenceScore_spec_witness:
  "tolls tollRoute = Some (Fin 15)
   \<and> Fin 0 \<le> Fin 15
   \<and> timeScore (scoreDetails tollRoute) = Fin 1
   \<and> tollsPositive tollRoute
   \<and> spec_nonzeroTollCost tollRoute
   \<and> calculatePreferenceScore tollRoute [''avoid_toll'', ''fastest''] = rnd 0.9
   \<and> Fin 0 \<le> calculatePreferenceScore tollRoute [''avoid_toll'', ''fastest'']
   \<and> calculatePreferenceScore tollRoute [''avoid_toll'', ''fastest''] \<le> Fin 1
   \<and> timeScore (scoreDetails nanTimeRoute) = NaN
   \<and> calculatePreferenceScore nanTimeRoute [''fastest''] = NaN"
proof -
  have t: "tolls tollRoute = Some (Fin 15)" "timeScore (scoreDetails tollRoute) = Fin 1"
    by (simp_all add: tollRoute_def)
  have p: "tollsPositive tollRoute"
    by (simp add: tollsPositive_def t)
  have nz: "spec_nonzeroTollCost tollRoute"
    by (simp add: spec_nonzeroTollCost_def t)
  have h: "timeScore (scoreDetails nanTimeRoute) = NaN"
    by (simp add: nanTimeRoute_def)
  have v: "spec_preferenceScore True True True (Fin 1) = rnd 0.9"
    by (simp add: spec_preferenceScore_def spec_clamp01_def literal_values preference_arith
        times_commute [of _ "Fin 1"] del: plus_jsnum.simps times_jsnum.simps)
  note A = calculatePreferenceScore_spec [of tollRoute "[''avoid_toll'', ''fastest'']"]
  have a1: "calculatePreferenceScore tollRoute [''avoid_toll'', ''fastest''] = rnd 0.9"
    using A p v by (simp add: t)
  from A have "''fastest'' \<notin> set [''avoid_toll'', ''fastest'']
        \<or> timeScore (scoreDetails tollRoute) \<noteq> NaN \<longrightarrow>
      Fin 0 \<le> calculatePreferenceScore tollRoute [''avoid_toll'', ''fastest'']
      \<and> calculatePreferenceScore tollRoute [''avoid_toll'', ''fastest''] \<le> Fin 1"
    by blast
  then have a2: "Fin 0 \<le> calculatePreferenceScore tollRoute [''avoid_toll'', ''fastest'']"
    and a3: "calculatePreferenceScore tollRoute [''avoid_toll'', ''fastest''] \<le> Fin 1"
    by (simp_all add: t)
  from calculatePreferenceScore_spec [of nanTimeRoute "[''fastest'']"]
  have "''fastest'' \<in> set [''fastest''] \<and> timeScore (scoreDetails nanTimeRoute) = NaN \<longrightarrow>
      calculatePreferenceScore nanTimeRoute [''fastest''] = NaN"
    by blast
  then have b: "calculatePreferenceScore nanTimeRoute [''fastest''] = NaN"
    by (simp add: h)
  show ?thesis
    by (intro conjI t p nz h a1 a2 a3 b) simp
qed

text \<open>
  C9 as stated fails, in both of its parts. The result is not always in \<open>[0,1]\<close>: a
  reroute plans with the preference \<open>fastest\<close>; when the duration of a candidate does not
  parse, every time score of the batch is NaN and so is the preference score of the
  route recommended. And the toll condition of the code is "greater than 0", not
  "nonzero": for a toll of -5 under \<open>avoid_toll\<close> the code returns 1 where the formula of
  the claim gives 0.8.
\<close>

theorem preferenceScore_not_clamped:
  "preferenceScore (scoreDetails (hd (routes
      (planRoute ''k'' fixturePrefs (fixtureWorld (Some unparsedPaths)) rerouteParams)))) = NaN
   \<and> \<not> Fin 0 \<le> preferenceScore (scoreDetails (hd (routes
      (planRoute ''k'' fixturePrefs (fixtureWorld (Some unparsedPaths)) rerouteParams))))
   \<and> calculatePreferenceScore negativeTollRoute [''avoid_toll''] = Fin 1
   \<and> spec_nonzeroTollCost negativeTollRoute
   \<and> spec_preferenceScore True (spec_nonzeroTollCost negativeTollRoute) False
        (timeScore (scoreDetails negativeTollRoute)) = rnd 0.8
   \<and> rnd 0.8 \<noteq> Fin 1"
proof -
  have plan: "map (\<lambda>r. preferenceScore (scoreDetails r)) (routes
      (planRoute ''k'' fixturePrefs (fixtureWorld (Some unparsedPaths)) rerouteParams))
      = [NaN, NaN]"
    by (simp add: planRoute_def parseRoutes_def parseRoute_def fixtureWorld_def fixturePath_def
        unparsedPaths_def scoreRoutes_def scoreRoute_def Let_def rerouteParams_def
        mergePreferences_def fixturePrefs_def currentWeather_def normalizeScore_def
        Math_min_def Math_max_def strict_eq_def calculatePreferenceScore_def
        calculateFinalScore_def sortRoutes_def compareScore_def)
  then have nan: "preferenceScore (scoreDetails (hd (routes
      (planRoute ''k'' fixturePrefs (fixtureWorld (Some unparsedPaths)) rerouteParams)))) = NaN"
    by (cases "routes (planRoute ''k'' fixturePrefs (fixtureWorld (Some unparsedPaths))
          rerouteParams)") auto
  have code: "calculatePreferenceScore negativeTollRoute [''avoid_toll''] = Fin 1"
    by (simp add: calculatePreferenceScore_def tollsPositive_def negativeTollRoute_def
        tollRoute_def)
  have spec: "spec_preferenceScore True (spec_nonzeroTollCost negativeTollRoute) False
        (timeScore (scoreDetails negativeTollRoute)) = rnd 0.8"
    by (simp add: spec_preferenceScore_def spec_nonzeroTollCost_def negativeTollRoute_def
        tollRoute_def spec_clamp01_def literal_values preference_arith
        del: plus_jsnum.simps times_jsnum.simps)
  have "rnd 0.8 \<noteq> Fin 1"
    using lit_08 by (auto elim!: inRangeE)
  with nan code spec show ?thesis
    by (simp add: spec_nonzeroTollCost_def negativeTollRoute_def tollRoute_def)
qed

section \<open>Planning\<close>

lemma length_insertRoute [simp]: "length (insertRoute x ys) = Suc (length ys)"
  by (induction ys) simp_all

lemma length_sortRoutes [simp]: "length (sortRoutes rs) = length rs"
  by (induction rs) (simp_all add: sortRoutes_def)

lemma set_insertRoute [simp]: "set (insertRoute x ys) = insert x (set ys)"
  by (induction ys) auto

lemma set_sortRoutes [simp]: "set (sortRoutes rs) = set rs"
  by (induction rs) (simp_all add: sortRoutes_def)

lemma sortRoutes_single [simp]: "sortRoutes [x] = [x]"
  by (simp add: sortRoutes_def)

lemma scoreRoute_fields [simp]:
  "rid (scoreRoute W params prefs weather rs r) = rid r"
  "durationSeconds (scoreRoute W params prefs weather rs r) = durationSeconds r"
  "distanceMeters (scoreRoute W params prefs weather rs r) = distanceMeters r"
  "points (scoreRoute W params prefs weather rs r) = points r"
  by (simp_all add: scoreRoute_def Let_def)

lemma scoreRoute_subscores:
  "trafficScore (scoreDetails (scoreRoute W params prefs weather rs r)) =
     (if considerTraffic params \<noteq> Some False \<and> points r \<noteq> []
      then Fin 1 - evaluateRouteTraffic (getTrafficByRectangle W) (points r) / Fin 100
      else rnd 0.8)"
  "weatherScore (scoreDetails (scoreRoute W params prefs weather rs r)) =
     (case weather of Some w \<Rightarrow> Fin 1 - evaluateWeatherImpact W w | None \<Rightarrow> Fin 1)"
  by (simp_all add: scoreRoute_def Let_def)

lemma length_parseRoutes [simp]: "length (parseRoutes paths) = min 3 (length paths)"
  by (simp add: parseRoutes_def min.commute)

lemma rid_parseRoutes: "r \<in> set (parseRoutes paths) \<Longrightarrow> rid r \<noteq> []"
  by (auto simp: parseRoutes_def parseRoute_def)

lemma scoredCandidates_facts [simp]:
  "length (scoredCandidates W userPrefs params paths) = min 3 (length paths)"
  "map rid (scoredCandidates W userPrefs params paths) = map rid (parseRoutes paths)"
  by (simp_all add: scoredCandidates_def scoreRoutes_def)

lemma scoredCandidates_rid:
  "r \<in> set (scoredCandidates W userPrefs params paths) \<Longrightarrow> rid r \<noteq> []"
  by (auto simp: scoredCandidates_def scoreRoutes_def dest: rid_parseRoutes)

lemma recommendedOf_sorted:
  assumes "rs \<noteq> []" and "\<forall>r \<in> set rs. rid r \<noteq> []"
  shows "recommendedOf (sortRoutes rs) = rid (hd (sortRoutes rs))"
proof -
  have ne: "sortRoutes rs \<noteq> []"
    using assms(1) length_sortRoutes [of rs] by (auto simp del: length_sortRoutes)
  then have "hd (sortRoutes rs) \<in> set rs"
    using hd_in_set [OF ne] by simp
  with assms(2) ne show ?thesis
    by (cases "sortRoutes rs") (auto simp: recommendedOf_def)
qed

lemma planRoute_planned:
  assumes "key \<noteq> []" and "directionPaths W = Some paths" and "paths \<noteq> []"
  shows "planRoute key userPrefs W params =
           \<lparr>recommendedRouteId =
              rid (hd (sortRoutes (scoredCandidates W userPrefs params paths))),
            routes = sortRoutes (scoredCandidates W userPrefs params paths)\<rparr>"
proof -
  have ne: "scoredCandidates W userPrefs params paths \<noteq> []"
    using assms(3) scoredCandidates_facts(1) [of W userPrefs params paths]
    by (cases paths) (auto simp del: scoredCandidates_facts)
  have "recommendedOf (sortRoutes (scoredCandidates W userPrefs params paths))
      = rid (hd (sortRoutes (scoredCandidates W userPrefs params paths)))"
    using ne by (rule recommendedOf_sorted) (simp add: scoredCandidates_rid)
  then show ?thesis
    using assms
    by (cases paths) (simp_all add: planRoute_def parseRoutes_def scoredCandidates_def Let_def)
qed

lemma planRoute_routes_nonempty: "routes (planRoute key userPrefs W params) \<noteq> []"
proof -
  have "routes getMockResult \<noteq> []" by (simp add: getMockResult_def)
  moreover have "sortRoutes (scoreRoutes W params prefs rs) \<noteq> []" if "length rs \<noteq> 0" for rs prefs
    using that length_sortRoutes [of "scoreRoutes W params prefs rs"]
    by (auto simp: scoreRoutes_def simp del: length_sortRoutes)
  ultimately show ?thesis
    by (auto simp: planRoute_def Let_def split: option.splits)
qed

subsection \<open>No candidates\<close>

text \<open>
  C1, as the code has it. When the path source returns an empty list, \<open>planRoute\<close> does
  not fail: it returns the built-in mock result.
\<close>

theorem planRoute_empty_candidates:
  "directionPaths W = Some [] \<Longrightarrow> planRoute key userPrefs W params = getMockResult"
  by (simp add: planRoute_def parseRoutes_def)

theorem planRoute_empty_candidates_witness:
  "directionPaths (fixtureWorld (Some [])) = Some []
   \<and> planRoute ''k'' fixturePrefs (fixtureWorld (Some [])) fixtureParams = getMockResult"
  using planRoute_empty_candidates [of "fixtureWorld (Some [])" "''k''" fixturePrefs fixtureParams]
  by (simp add: fixtureWorld_def)

text \<open>
  C1 as stated fails: with a key configured and an empty path list the call returns a
  result, with two routes, the first of them recommended and drawn through four points
  that no path source supplied.
\<close>

theorem planRoute_empty_candidates_fabricates:
  "length (routes (planRoute ''k'' fixturePrefs (fixtureWorld (Some [])) fixtureParams)) = 2
   \<and> recommendedRouteId (planRoute ''k'' fixturePrefs (fixtureWorld (Some [])) fixtureParams)
       = ''r1''
   \<and> length (points (hd (routes
        (planRoute ''k'' fixturePrefs (fixtureWorld (Some [])) fixtureParams)))) = 4"
  by (simp add: planRoute_def parseRoutes_def fixtureWorld_def getMockResult_def)

subsection \<open>Failing collaborators\<close>

lemma evaluateRouteTraffic_fails:
  "trafficFails W \<Longrightarrow> evaluateRouteTraffic (getTrafficByRectangle W) pts = Fin 0"
  unfolding evaluateRouteTraffic_def trafficFails_def Let_def
  by (auto split: prod.splits option.splits)

lemma currentWeather_fails:
  "weatherFails W \<or> considerWeather params = Some False \<Longrightarrow> currentWeather W params = None"
  by (auto simp: weatherFails_def currentWeather_def Let_def)

text \<open>
  C6, as the code has it. With a key and at least one candidate, a failing traffic or
  weather service does not fail the call: the result holds the first three candidates,
  the first of them recommended. When the weather service fails (or weather is switched
  off) every weather sub-score is 1.0. When the traffic service fails, the traffic
  sub-score of a route is 1.0 (a congestion rate of 0) if traffic is considered and the
  route has points; it is 0.8 only where traffic is switched off or the route has no
  points.
\<close>

theorem planRoute_survives_collaborator_failure:
  assumes "key \<noteq> []" and "directionPaths W = Some paths" and "paths \<noteq> []"
  shows "length (routes (planRoute key userPrefs W params)) = min 3 (length paths)
     \<and> recommendedRouteId (planRoute key userPrefs W params)
         = rid (hd (routes (planRoute key userPrefs W params)))
     \<and> (trafficFails W \<longrightarrow>
          (\<forall>r \<in> set (routes (planRoute key userPrefs W params)).
             trafficScore (scoreDetails r) =
               (if considerTraffic params \<noteq> Some False \<and> points r \<noteq> [] then Fin 1.0
                else rnd 0.8)))
     \<and> (weatherFails W \<or> considerWeather params = Some False \<longrightarrow>
          (\<forall>r \<in> set (routes (planRoute key userPrefs W params)).
             weatherScore (scoreDetails r) = Fin 1.0))"
proof -
  define cs where "cs = scoredCandidates W userPrefs params paths"
  have res: "planRoute key userPrefs W params =
      \<lparr>recommendedRouteId = rid (hd (sortRoutes cs)), routes = sortRoutes cs\<rparr>"
    unfolding cs_def by (rule planRoute_planned [OF assms])
  have len: "length cs = min 3 (length paths)"
    by (simp add: cs_def)
  have traffic: "trafficScore (scoreDetails r) =
      (if considerTraffic params \<noteq> Some False \<and> points r \<noteq> [] then Fin 1.0 else rnd 0.8)"
    if "trafficFails W" and "r \<in> set cs" for r
    using that
    by (auto simp: cs_def scoredCandidates_def scoreRoutes_def scoreRoute_subscores
        evaluateRouteTraffic_fails)
  have weather: "weatherScore (scoreDetails r) = Fin 1.0"
    if "weatherFails W \<or> considerWeather params = Some False" and "r \<in> set cs" for r
    using that currentWeather_fails [OF that(1)]
    by (auto simp: cs_def scoredCandidates_def scoreRoutes_def scoreRoute_subscores)
  show ?thesis
    unfolding res using len traffic weather by simp
qed

theorem planRoute_survives_collaborator_failure_witness:
  "''k'' \<noteq> []
   \<and> directionPaths (fixtureWorld (Some tiedPaths)) = Some tiedPaths
   \<and> tiedPaths \<noteq> []
   \<and> trafficFails (fixtureWorld (Some tiedPaths))
   \<and> weatherFails (fixtureWorld (Some tiedPaths))
   \<and> length (routes (planRoute ''k'' fixturePrefs (fixtureWorld (Some tiedPaths))
        fixtureParams)) = 3
   \<and> list_all (\<lambda>r. weatherScore (scoreDetails r) = Fin 1.0
                      \<and> trafficScore (scoreDetails r) = rnd 0.8)
        (routes (planRoute ''k'' fixturePrefs (fixtureWorld (Some tiedPaths)) fixtureParams))"
proof -
  have h1: "''k'' \<noteq> []" by simp
  have h2: "directionPaths (fixtureWorld (Some tiedPaths)) = Some tiedPaths"
    by (simp add: fixtureWorld_def)
  have h3: "tiedPaths \<noteq> []" by (simp add: tiedPaths_def)
  have t: "trafficFails (fixtureWorld (Some tiedPaths))"
    by (simp add: trafficFails_def fixtureWorld_def)
  have w: "weatherFails (fixtureWorld (Some tiedPaths))"
    by (simp add: weatherFails_def fixtureWorld_def)
  have l: "length tiedPaths = 3" by (simp add: tiedPaths_def)
  have p: "\<forall>r \<in> set (routes (planRoute ''k'' fixturePrefs (fixtureWorld (Some tiedPaths))
      fixtureParams)). points r = []"
    using planRoute_planned [OF h1 h2 h3, of fixturePrefs fixtureParams]
    by (auto simp: scoredCandidates_def scoreRoutes_def parseRoutes_def parseRoute_def
        tiedPaths_def fixturePath_def)
  from planRoute_survives_collaborator_failure [OF h1 h2 h3, of fixturePrefs fixtureParams]
    h1 h2 h3 t w l p
  show ?thesis by (simp add: list_all_iff)
qed

text \<open>
  C6 as stated fails: the traffic service fails for a candidate with two points, and the
  traffic sub-score of the result is 1, not 0.8.
\<close>

theorem traffic_failure_scores_one:
  "length (routes (planRoute ''k'' fixturePrefs
       (fixtureWorld (Some [fixturePath 12500 1500 twoPointRoute])) fixtureParams)) = 1
   \<and> trafficScore (scoreDetails (hd (routes (planRoute ''k'' fixturePrefs
       (fixtureWorld (Some [fixturePath 12500 1500 twoPointRoute])) fixtureParams)))) = Fin 1
   \<and> trafficScore (scoreDetails (hd (routes (planRoute ''k'' fixturePrefs
       (fixtureWorld (Some [fixturePath 12500 1500 twoPointRoute])) fixtureParams))))
       \<noteq> rnd 0.8"
proof -
  have "rnd 0.8 \<noteq> Fin 1"
    using lit_08 by (auto elim!: inRangeE)
  then show ?thesis
    by (simp add: planRoute_def parseRoutes_def parseRoute_def fixtureWorld_def fixturePath_def
        scoreRoutes_def Let_def scoreRoute_subscores fixtureParams_def twoPointRoute_def
        evaluateRouteTraffic_def routeBounds_def fixturePoint_def)
qed

subsection \<open>The recommendation\<close>

lemma isDouble_score: "isDouble (score (scoreRoute W params prefs weather rs r))"
  by (simp add: scoreRoute_def Let_def calculateFinalScore_def)

lemma scoredCandidates_double:
  "r \<in> set (scoredCandidates W userPrefs params paths) \<Longrightarrow> isDouble (score r)"
  by (auto simp: scoredCandidates_def scoreRoutes_def isDouble_score)

text \<open>
  Between two scores that are not NaN the comparator is positive exactly when the first
  is the smaller one.
\<close>

lemma compareScore_sign:
  assumes "isDouble (score x)" and "isDouble (score y)"
      and "score x \<noteq> NaN" and "score y \<noteq> NaN"
  shows "(Fin 0 < compareScore x y) = (score x < score y)"
  using compare_sign [OF assms(1,2,3,4)] by (simp add: compareScore_def)

lemma insertRoute_insort:
  assumes "isDouble (score x)" and "score x \<noteq> NaN"
      and "\<forall>y \<in> set ys. isDouble (score y) \<and> score y \<noteq> NaN"
  shows "insertRoute x ys = insort_key (\<lambda>r. sortKey (score r)) x ys"
  using assms(3)
proof (induction ys)
  case Nil
  show ?case by simp
next
  case (Cons y ys)
  then have y: "isDouble (score y)" "score y \<noteq> NaN" by simp_all
  have "(score x < score y) = (\<not> sortKey (score x) \<le> sortKey (score y))"
    unfolding sortKey_le [OF assms(1) y(1) assms(2) y(2)]
    using assms(2) y(2) by (simp add: jsnum_le_less)
  with Cons show ?case
    by (simp add: compareScore_sign [OF assms(1) y(1) assms(2) y(2)])
qed

text \<open>
  On scores that are not NaN the sort is the library's stable insertion sort, by falling
  score.
\<close>

lemma sortRoutes_sort_key:
  "\<forall>r \<in> set rs. isDouble (score r) \<and> score r \<noteq> NaN \<Longrightarrow>
   sortRoutes rs = sort_key (\<lambda>r. sortKey (score r)) rs"
proof (induction rs)
  case Nil
  show ?case by (simp add: sortRoutes_def)
next
  case (Cons x rs)
  then have "sortRoutes rs = sort_key (\<lambda>r. sortKey (score r)) rs" by simp
  moreover have "sortRoutes (x # rs) = insertRoute x (sortRoutes rs)"
    by (simp add: sortRoutes_def)
  ultimately show ?case
    using Cons.prems insertRoute_insort [of x "sort_key (\<lambda>r. sortKey (score r)) rs"]
    by simp
qed

lemma decimal_digit: "n < 10 \<Longrightarrow> decimal n = [''0123456789'' ! n]"
  by (simp add: decimal.simps)

lemma rid_parseRoutes_list:
  "map rid (parseRoutes paths) = take (length paths) [''r1'', ''r2'', ''r3'']"
  by (cases paths; cases "tl paths"; cases "tl (tl paths)")
     (auto simp: parseRoutes_def parseRoute_def decimal_digit)

lemma distinct_rid_parseRoutes: "distinct (map rid (parseRoutes paths))"
  unfolding rid_parseRoutes_list by (rule distinct_take) simp

lemma count_distinct_key:
  "distinct (map g xs) \<Longrightarrow> x \<in> set xs \<Longrightarrow> length (filter (\<lambda>y. g y = g x) xs) = 1"
proof (induction xs)
  case Nil
  then show ?case by simp
next
  case (Cons y ys)
  show ?case
  proof (cases "x = y")
    case True
    have "filter (\<lambda>z. g z = g y) ys = []"
      using Cons.prems(1) by (auto simp: filter_empty_conv image_iff)
    with True show ?thesis by simp
  next
    case False
    with Cons.prems have "x \<in> set ys" "g y \<noteq> g x" by auto
    with Cons show ?thesis by simp
  qed
qed

lemma sorted_hd_min:
  "sorted (map f xs) \<Longrightarrow> xs \<noteq> [] \<Longrightarrow> x \<in> set xs \<Longrightarrow> f (hd xs) \<le> f x"
  by (cases xs) auto

text \<open>
  C7, as the code has it. For a call with a key and a non-empty candidate batch (the
  first three paths of the path source) in which no composite score is NaN: exactly one
  route of the result carries the recommended id; it is the id of a candidate whose
  score is maximal in the batch and which no earlier candidate, in the order of the path
  source, equals in score; candidates of equal score keep their source order in the
  result (the sort is stable); and the result is in falling order of score. The scores
  are the sums as the machine rounds them, and may be infinite.
\<close>

theorem planRoute_recommends_best:
  assumes "key \<noteq> []" and "directionPaths W = Some paths" and "paths \<noteq> []"
    and "\<forall>r \<in> set (scoredCandidates W userPrefs params paths). score r \<noteq> NaN"
  shows "length (filter (\<lambda>r. rid r = recommendedRouteId (planRoute key userPrefs W params))
                  (routes (planRoute key userPrefs W params))) = 1
     \<and> (\<exists>i < length (scoredCandidates W userPrefs params paths).
          rid (scoredCandidates W userPrefs params paths ! i)
            = recommendedRouteId (planRoute key userPrefs W params)
          \<and> (\<forall>j < length (scoredCandidates W userPrefs params paths).
                score (scoredCandidates W userPrefs params paths ! j)
                  \<le> score (scoredCandidates W userPrefs params paths ! i))
          \<and> (\<forall>j < i. score (scoredCandidates W userPrefs params paths ! j)
                         < score (scoredCandidates W userPrefs params paths ! i)))
     \<and> (\<forall>k. filter (\<lambda>r. score r = k) (routes (planRoute key userPrefs W params))
             = filter (\<lambda>r. score r = k) (scoredCandidates W userPrefs params paths))
     \<and> sorted_wrt (\<lambda>a b. score b \<le> score a) (routes (planRoute key userPrefs W params))"
proof -
  define cs where "cs = scoredCandidates W userPrefs params paths"
  define f where "f = (\<lambda>r :: route. sortKey (score r))"
  define res where "res = planRoute key userPrefs W params"
  have num: "\<forall>r \<in> set cs. isDouble (score r) \<and> score r \<noteq> NaN"
    using assms(4) scoredCandidates_double [of _ W userPrefs params paths]
    by (auto simp: cs_def)
  have le: "(f x \<le> f y) = (score y \<le> score x)" if "x \<in> set cs" "y \<in> set cs" for x y
    unfolding f_def using num that by (intro sortKey_le) auto
  have sorted_eq: "sortRoutes cs = sort_key f cs"
    unfolding f_def by (rule sortRoutes_sort_key [OF num])
  have cs_ne: "cs \<noteq> []"
    using assms(3) scoredCandidates_facts(1) [of W userPrefs params paths]
    by (cases paths) (auto simp: cs_def simp del: scoredCandidates_facts)
  have res_eq: "res = \<lparr>recommendedRouteId = rid (hd (sort_key f cs)), routes = sort_key f cs\<rparr>"
    unfolding res_def using planRoute_planned [OF assms(1,2,3), of userPrefs params] sorted_eq
    by (simp add: cs_def)
  define best where "best = hd (sort_key f cs)"
  have sorted_ne: "sort_key f cs \<noteq> []"
    using cs_ne length_sort [of f cs] by (auto simp del: length_sort)
  have best_in: "best \<in> set cs"
    using hd_in_set [OF sorted_ne] by (simp add: best_def)
  have distinct_ids: "distinct (map rid cs)"
    by (simp add: cs_def distinct_rid_parseRoutes)
  have one: "length (filter (\<lambda>r. rid r = rid best) (sort_key f cs)) = 1"
    using count_distinct_key [OF distinct_ids best_in]
    by (simp add: filter_sort)
  have stable: "filter (\<lambda>r. score r = k) (sort_key f cs) = filter (\<lambda>r. score r = k) cs" for k
  proof (cases "isDouble k \<and> k \<noteq> NaN")
    case True
    have same: "(score r = k) = (f r = sortKey k)" if "r \<in> set cs" for r
      unfolding f_def using num that True by (intro sortKey_eq [symmetric]) auto
    have "filter (\<lambda>r. score r = k) (sort_key f cs) = filter (\<lambda>r. f r = sortKey k) (sort_key f cs)"
      by (rule filter_cong) (simp_all add: same)
    also have "\<dots> = filter (\<lambda>r. f r = sortKey k) cs"
      by (rule sort_key_stable)
    also have "\<dots> = filter (\<lambda>r. score r = k) cs"
      by (rule filter_cong) (simp_all add: same)
    finally show ?thesis .
  next
    case False
    then have "\<forall>r \<in> set cs. score r \<noteq> k" using num by auto
    then show ?thesis by (simp add: filter_empty_conv [THEN iffD2])
  qed
  have srt: "sorted (map f (sort_key f cs))"
    by (rule sorted_sort_key)
  have desc: "sorted_wrt (\<lambda>a b. score b \<le> score a) (sort_key f cs)"
  proof -
    have "sorted_wrt (\<lambda>x y. f x \<le> f y) (sort_key f cs)"
      using srt by (simp add: sorted_map)
    then show ?thesis
    proof (rule sorted_wrt_mono_rel [rotated])
      fix x y assume "x \<in> set (sort_key f cs)" "y \<in> set (sort_key f cs)" "f x \<le> f y"
      then show "score y \<le> score x"
        by (simp add: le)
    qed
  qed
  have best_max: "score r \<le> score best" if "r \<in> set cs" for r
  proof -
    have "f best \<le> f r"
      unfolding best_def using srt sorted_ne that by (intro sorted_hd_min) simp_all
    then show ?thesis
      using that best_in by (simp add: le)
  qed
  have "filter (\<lambda>r. score r = score best) (sort_key f cs)
          = best # filter (\<lambda>r. score r = score best) (tl (sort_key f cs))"
    using sorted_ne by (cases "sort_key f cs") (simp_all add: best_def)
  then have "filter (\<lambda>r. score r = score best) cs
          = best # filter (\<lambda>r. score r = score best) (tl (sort_key f cs))"
    by (simp add: stable)
  then obtain us vs where split: "cs = us @ best # vs"
      and before: "\<forall>u \<in> set us. score u \<noteq> score best"
    unfolding filter_eq_Cons_iff by blast
  have at: "cs ! length us = best"
    by (simp add: split)
  have earlier: "score (cs ! j) < score best" if "j < length us" for j
  proof -
    have mem: "cs ! j \<in> set us" using that by (simp add: split nth_append)
    then have in_cs: "cs ! j \<in> set cs" by (simp add: split)
    have "score (cs ! j) \<le> score best" by (rule best_max) fact
    moreover have "score (cs ! j) \<noteq> score best" using before mem by blast
    ultimately show ?thesis by (rule jsnum_le_neq)
  qed
  have second: "\<exists>i < length cs. rid (cs ! i) = rid best
          \<and> (\<forall>j < length cs. score (cs ! j) \<le> score (cs ! i))
          \<and> (\<forall>j < i. score (cs ! j) < score (cs ! i))"
  proof (intro exI [of _ "length us"] conjI allI impI)
    show "length us < length cs" by (simp add: split)
    show "rid (cs ! length us) = rid best" by (simp add: at)
    show "score (cs ! j) \<le> score (cs ! length us)" if "j < length cs" for j
      using best_max [of "cs ! j"] that by (simp add: at)
    show "score (cs ! j) < score (cs ! length us)" if "j < length us" for j
      using earlier [OF that] by (simp add: at)
  qed
  show ?thesis
    using one second stable desc
    unfolding cs_def [symmetric] res_def [symmetric]
    by (simp add: res_eq best_def)
qed

text \<open>
  The arithmetic of the two batches scored below, operation by operation: the
  normalisations, the weighted terms and their running sums.
\<close>

lemma score_arith:
  "Fin 1500 - Fin 1500 = Fin 0"
  "Fin 1620 - Fin 1500 = Fin 120"
  "Fin 0 / Fin 120 = Fin 0"
  "Fin 1 - Fin 0 = Fin 1"
  "Fin 12500 - Fin 12500 = Fin 0"
  "Fin 13000 - Fin 12500 = Fin 500"
  "Fin 0 / Fin 500 = Fin 0"
  "Fin 1 * Fin (5404319552844595 / 18014398509481984)
     = Fin (5404319552844595 / 18014398509481984)"
  "Fin 1 * Fin (3602879701896397 / 18014398509481984)
     = Fin (3602879701896397 / 18014398509481984)"
  "Fin (5404319552844595 / 18014398509481984) + Fin (3602879701896397 / 18014398509481984)
     = Fin (1 / 2)"
  "Fin (3602879701896397 / 4503599627370496) * Fin (1 / 4)
     = Fin (3602879701896397 / 18014398509481984)"
  "Fin (1 / 2) + Fin (3602879701896397 / 18014398509481984)
     = Fin (3152519739159347 / 4503599627370496)"
  "Fin 1 * Fin (3602879701896397 / 36028797018963968)
     = Fin (3602879701896397 / 36028797018963968)"
  "Fin (3152519739159347 / 4503599627370496) + Fin (3602879701896397 / 36028797018963968)
     = Fin (7205759403792793 / 9007199254740992)"
  "Fin 1 * Fin (5404319552844595 / 36028797018963968)
     = Fin (5404319552844595 / 36028797018963968)"
  "Fin (7205759403792793 / 9007199254740992) + Fin (5404319552844595 / 36028797018963968)
     = Fin (4278419646001971 / 4503599627370496)"
  "Fin 120 / Fin 120 = Fin 1"
  "Fin 1 - Fin 1 = Fin 0"
  "Fin 500 / Fin 500 = Fin 1"
  "Fin 0 * Fin (5404319552844595 / 18014398509481984) = Fin 0"
  "Fin 0 * Fin (3602879701896397 / 18014398509481984) = Fin 0"
  "Fin 0 + Fin 0 = Fin 0"
  "Fin 0 + Fin (3602879701896397 / 18014398509481984)
     = Fin (3602879701896397 / 18014398509481984)"
  "Fin (3602879701896397 / 18014398509481984) + Fin (3602879701896397 / 36028797018963968)
     = Fin (1351079888211149 / 4503599627370496)"
  "Fin (1351079888211149 / 4503599627370496) + Fin (5404319552844595 / 36028797018963968)
     = Fin (4053239664633447 / 9007199254740992)"
  "Fin 1200 - Fin 1200 = Fin 0"
  "Fin 1500 - Fin 1200 = Fin 300"
  "Fin 0 / Fin 300 = Fin 0"
  "Fin 11500 - Fin 10000 = Fin 1500"
  "Fin 15000 - Fin 10000 = Fin 5000"
  "Fin 1500 / Fin 5000 = Fin (5404319552844595 / 18014398509481984)"
  "Fin 1 - Fin (5404319552844595 / 18014398509481984) = Fin (3152519739159347 / 4503599627370496)"
  "Fin (3152519739159347 / 4503599627370496) * Fin (3602879701896397 / 18014398509481984)
     = Fin (5044031582654955 / 36028797018963968)"
  "Fin (5404319552844595 / 18014398509481984) + Fin (5044031582654955 / 36028797018963968)
     = Fin (990791918021509 / 2251799813685248)"
  "Fin (990791918021509 / 2251799813685248) + Fin (3602879701896397 / 18014398509481984)
     = Fin (2882303761517117 / 4503599627370496)"
  "Fin (2882303761517117 / 4503599627370496) + Fin (3602879701896397 / 36028797018963968)
     = Fin (6665327448508333 / 9007199254740992)"
  "Fin (6665327448508333 / 9007199254740992) + Fin (5404319552844595 / 36028797018963968)
     = Fin (4008203668359741 / 4503599627370496)"
  "Fin 1260 - Fin 1200 = Fin 60"
  "Fin 60 / Fin 300 = Fin (3602879701896397 / 18014398509481984)"
  "Fin 1 - Fin (3602879701896397 / 18014398509481984) = Fin (3602879701896397 / 4503599627370496)"
  "Fin 10000 - Fin 10000 = Fin 0"
  "Fin 0 / Fin 5000 = Fin 0"
  "Fin (3602879701896397 / 4503599627370496) * Fin (5404319552844595 / 18014398509481984)
     = Fin (1080863910568919 / 4503599627370496)"
  "Fin (1080863910568919 / 4503599627370496) + Fin (3602879701896397 / 18014398509481984)
     = Fin (7926335344172073 / 18014398509481984)"
  "Fin (7926335344172073 / 18014398509481984) + Fin (3602879701896397 / 18014398509481984)
     = Fin (5764607523034235 / 9007199254740992)"
  "Fin (5764607523034235 / 9007199254740992) + Fin (3602879701896397 / 36028797018963968)
     = Fin (3332663724254167 / 4503599627370496)"
  "Fin (3332663724254167 / 4503599627370496) + Fin (5404319552844595 / 36028797018963968)
     = Fin (8016407336719483 / 9007199254740992)"
  "Fin 300 / Fin 300 = Fin 1"
  "Fin 5000 / Fin 5000 = Fin 1"
  subgoal by (simp add: minus_jsnum_def)
  subgoal by (simp only: finite_arith)
    (rule rnd_evalI [where n = "8444249301319680" and q = "- 46"]; simp)
  subgoal by (simp add: minus_jsnum_def)
  subgoal by (simp only: finite_arith)
    (rule rnd_evalI [where n = "4503599627370496" and q = "- 52"]; simp)
  subgoal by (simp add: minus_jsnum_def)
  subgoal by (simp only: finite_arith)
    (rule rnd_evalI [where n = "8796093022208000" and q = "- 44"]; simp)
  subgoal by (simp add: minus_jsnum_def)
  subgoal by (simp only: finite_arith)
    (rule rnd_evalI [where n = "5404319552844595" and q = "- 54"]; simp)
  subgoal by (simp only: finite_arith)
    (rule rnd_evalI [where n = "7205759403792794" and q = "- 55"]; simp)
  subgoal by (simp only: finite_arith)
    (rule rnd_evalI [where n = "4503599627370496" and q = "- 53"]; simp)
  subgoal by (simp only: finite_arith)
    (rule rnd_evalI [where n = "7205759403792794" and q = "- 55"]; simp)
  subgoal by (simp only: finite_arith)
    (rule rnd_evalI [where n = "6305039478318694" and q = "- 53"]; simp)
  subgoal by (simp only: finite_arith)
    (rule rnd_evalI [where n = "7205759403792794" and q = "- 56"]; simp)
  subgoal by (simp only: finite_arith)
    (rule rnd_evalI [where n = "7205759403792793" and q = "- 53"]; simp)
  subgoal by (simp only: finite_arith)
    (rule rnd_evalI [where n = "5404319552844595" and q = "- 55"]; simp)
  subgoal by (simp only: finite_arith)
    (rule rnd_evalI [where n = "8556839292003942" and q = "- 53"]; simp)
  subgoal by (simp only: divide_jsnum.simps)
    (simp; rule rnd_evalI [where n = "4503599627370496" and q = "- 52"]; simp)
  subgoal by (simp add: minus_jsnum_def)
  subgoal by (simp only: divide_jsnum.simps)
    (simp; rule rnd_evalI [where n = "4503599627370496" and q = "- 52"]; simp)
  subgoal by (simp add: minus_jsnum_def)
  subgoal by (simp add: minus_jsnum_def)
  subgoal by (simp add: minus_jsnum_def)
  subgoal by (simp only: finite_arith)
    (rule rnd_evalI [where n = "7205759403792794" and q = "- 55"]; simp)
  subgoal by (simp only: finite_arith)
    (rule rnd_evalI [where n = "5404319552844596" and q = "- 54"]; simp)
  subgoal by (simp only: finite_arith)
    (rule rnd_evalI [where n = "8106479329266894" and q = "- 54"]; simp)
  subgoal by (simp add: minus_jsnum_def)
  subgoal by (simp only: finite_arith)
    (rule rnd_evalI [where n = "5277655813324800" and q = "- 44"]; simp)
  subgoal by (simp add: minus_jsnum_def)
  subgoal by (simp only: finite_arith)
    (rule rnd_evalI [where n = "6597069766656000" and q = "- 42"]; simp)
  subgoal by (simp only: finite_arith)
    (rule rnd_evalI [where n = "5497558138880000" and q = "- 40"]; simp)
  subgoal by (simp only: divide_jsnum.simps)
    (simp; rule rnd_evalI [where n = "5404319552844595" and q = "- 54"]; simp)
  subgoal by (simp only: finite_arith)
    (rule rnd_evalI [where n = "6305039478318694" and q = "- 53"]; simp)
  subgoal by (simp only: finite_arith)
    (rule rnd_evalI [where n = "5044031582654955" and q = "- 55"]; simp)
  subgoal by (simp only: finite_arith)
    (rule rnd_evalI [where n = "7926335344172072" and q = "- 54"]; simp)
  subgoal by (simp only: finite_arith)
    (rule rnd_evalI [where n = "5764607523034234" and q = "- 53"]; simp)
  subgoal by (simp only: finite_arith)
    (rule rnd_evalI [where n = "6665327448508333" and q = "- 53"]; simp)
  subgoal by (simp only: finite_arith)
    (rule rnd_evalI [where n = "8016407336719482" and q = "- 53"]; simp)
  subgoal by (simp only: finite_arith)
    (rule rnd_evalI [where n = "8444249301319680" and q = "- 47"]; simp)
  subgoal by (simp only: divide_jsnum.simps)
    (simp; rule rnd_evalI [where n = "7205759403792794" and q = "- 55"]; simp)
  subgoal by (simp only: finite_arith)
    (rule rnd_evalI [where n = "7205759403792794" and q = "- 53"]; simp)
  subgoal by (simp add: minus_jsnum_def)
  subgoal by (simp add: minus_jsnum_def)
  subgoal by (simp only: finite_arith)
    (rule rnd_evalI [where n = "8646911284551352" and q = "- 55"]; simp)
  subgoal by (simp only: finite_arith)
    (rule rnd_evalI [where n = "7926335344172073" and q = "- 54"]; simp)
  subgoal by (simp only: finite_arith)
    (rule rnd_evalI [where n = "5764607523034235" and q = "- 53"]; simp)
  subgoal by (simp only: finite_arith)
    (rule rnd_evalI [where n = "6665327448508334" and q = "- 53"]; simp)
  subgoal by (simp only: finite_arith)
    (rule rnd_evalI [where n = "8016407336719483" and q = "- 53"]; simp)
  subgoal by (simp only: divide_jsnum.simps)
    (simp; rule rnd_evalI [where n = "4503599627370496" and q = "- 52"]; simp)
  subgoal by (simp only: divide_jsnum.simps)
    (simp; rule rnd_evalI [where n = "4503599627370496" and q = "- 52"]; simp)
  done

lemmas evalScores =
  scoredCandidates_def scoreRoutes_def parseRoutes_def parseRoute_def fixturePath_def
  decimal.simps scoreRoute_def Let_def normalizeScore_def Math_min_def Math_max_def
  strict_eq_def calculatePreferenceScore_def calculateFinalScore_def weightProfile_def
  mergePreferences_def fixturePrefs_def fixtureParams_def currentWeather_def fixtureWorld_def
  tollsPositive_def literal_values score_arith

lemma tied_scores:
  "map (\<lambda>r. (rid r, score r))
     (scoredCandidates (fixtureWorld (Some tiedPaths)) fixturePrefs fixtureParams tiedPaths)
   = [(''r1'', rnd 0.95), (''r2'', rnd 0.95), (''r3'', rnd 0.45000000000000007)]"
  by (simp add: evalScores tiedPaths_def
      del: plus_jsnum.simps times_jsnum.simps divide_jsnum.simps sub_zero)

lemma close_scores:
  "map (\<lambda>r. (rid r, score r))
     (scoredCandidates (fixtureWorld (Some closePaths)) fixturePrefs fixtureParams closePaths)
   = [(''r1'', rnd 0.8899999999999999), (''r2'', rnd 0.89), (''r3'', rnd 0.45000000000000007)]"
  by (simp add: evalScores closePaths_def
      del: plus_jsnum.simps times_jsnum.simps divide_jsnum.simps sub_zero)

lemma score_order:
  "\<not> rnd 0.95 < rnd 0.95" "\<not> rnd 0.95 < rnd 0.45000000000000007"
  "\<not> rnd 0.95 < rnd 0.89" "\<not> rnd 0.95 < rnd 0.8899999999999999"
  "rnd 0.45000000000000007 < rnd 0.95" "\<not> rnd 0.45000000000000007 < rnd 0.45000000000000007"
  "rnd 0.45000000000000007 < rnd 0.89" "rnd 0.45000000000000007 < rnd 0.8899999999999999"
  "rnd 0.89 < rnd 0.95" "\<not> rnd 0.89 < rnd 0.45000000000000007"
  "\<not> rnd 0.89 < rnd 0.89" "\<not> rnd 0.89 < rnd 0.8899999999999999"
  "rnd 0.8899999999999999 < rnd 0.95" "\<not> rnd 0.8899999999999999 < rnd 0.45000000000000007"
  "rnd 0.8899999999999999 < rnd 0.89" "\<not> rnd 0.8899999999999999 < rnd 0.8899999999999999"
  by (simp_all add: literal_values)

text \<open>
  Three candidates of which the first two tie at 0.95 and the third scores
  0.45000000000000007: the first is recommended. Three candidates of which the first
  scores 0.8899999999999999 and the second 0.89 (in exact arithmetic both sums are 0.89):
  the second is recommended.
\<close>

theorem planRoute_recommends_best_witness:
  "''k'' \<noteq> []
   \<and> directionPaths (fixtureWorld (Some tiedPaths)) = Some tiedPaths
   \<and> tiedPaths \<noteq> []
   \<and> map score (scoredCandidates (fixtureWorld (Some tiedPaths)) fixturePrefs fixtureParams
          tiedPaths) = [rnd 0.95, rnd 0.95, rnd 0.45000000000000007]
   \<and> recommendedRouteId (planRoute ''k'' fixturePrefs (fixtureWorld (Some tiedPaths))
        fixtureParams) = ''r1''
   \<and> map rid (routes (planRoute ''k'' fixturePrefs (fixtureWorld (Some tiedPaths))
        fixtureParams)) = [''r1'', ''r2'', ''r3'']
   \<and> length (filter (\<lambda>r. rid r = ''r1'')
        (routes (planRoute ''k'' fixturePrefs (fixtureWorld (Some tiedPaths)) fixtureParams)))
       = 1
   \<and> directionPaths (fixtureWorld (Some closePaths)) = Some closePaths
   \<and> closePaths \<noteq> []
   \<and> map score (scoredCandidates (fixtureWorld (Some closePaths)) fixturePrefs fixtureParams
          closePaths) = [rnd 0.8899999999999999, rnd 0.89, rnd 0.45000000000000007]
   \<and> recommendedRouteId (planRoute ''k'' fixturePrefs (fixtureWorld (Some closePaths))
        fixtureParams) = ''r2''
   \<and> map rid (routes (planRoute ''k'' fixturePrefs (fixtureWorld (Some closePaths))
        fixtureParams)) = [''r2'', ''r1'', ''r3'']
   \<and> length (filter (\<lambda>r. rid r = ''r2'')
        (routes (planRoute ''k'' fixturePrefs (fixtureWorld (Some closePaths)) fixtureParams)))
       = 1"
proof -
  have h1: "''k'' \<noteq> []" by simp
  have tied: "recommendedRouteId (planRoute ''k'' fixturePrefs (fixtureWorld (Some tiedPaths))
          fixtureParams) = ''r1''
      \<and> map rid (routes (planRoute ''k'' fixturePrefs (fixtureWorld (Some tiedPaths))
          fixtureParams)) = [''r1'', ''r2'', ''r3'']
      \<and> length (filter (\<lambda>r. rid r = ''r1'')
          (routes (planRoute ''k'' fixturePrefs (fixtureWorld (Some tiedPaths)) fixtureParams)))
         = 1
      \<and> directionPaths (fixtureWorld (Some tiedPaths)) = Some tiedPaths
      \<and> tiedPaths \<noteq> []
      \<and> map score (scoredCandidates (fixtureWorld (Some tiedPaths)) fixturePrefs fixtureParams
          tiedPaths) = [rnd 0.95, rnd 0.95, rnd 0.45000000000000007]"
  proof -
    define cs where
      "cs = scoredCandidates (fixtureWorld (Some tiedPaths)) fixturePrefs fixtureParams tiedPaths"
    have h2: "directionPaths (fixtureWorld (Some tiedPaths)) = Some tiedPaths"
      by (simp add: fixtureWorld_def)
    have h3: "tiedPaths \<noteq> []" by (simp add: tiedPaths_def)
    have "map (\<lambda>r. (rid r, score r)) cs
        = [(''r1'', rnd 0.95), (''r2'', rnd 0.95), (''r3'', rnd 0.45000000000000007)]"
      unfolding cs_def by (rule tied_scores)
    then obtain a b c where cs: "cs = [a, b, c]"
      and a: "rid a = ''r1''" "score a = rnd 0.95"
      and b: "rid b = ''r2''" "score b = rnd 0.95"
      and c: "rid c = ''r3''" "score c = rnd 0.45000000000000007"
      by auto
    have h4: "\<forall>r \<in> set cs. score r \<noteq> NaN"
      by (simp add: cs a b c)
    have "sortRoutes cs = [a, b, c]"
      using score_order by (simp add: cs sortRoutes_def compareScore_sign a b c)
    then have plan: "planRoute ''k'' fixturePrefs (fixtureWorld (Some tiedPaths)) fixtureParams
        = \<lparr>recommendedRouteId = ''r1'', routes = [a, b, c]\<rparr>"
      using planRoute_planned [OF h1 h2 h3, of fixturePrefs fixtureParams]
      by (simp add: cs_def [symmetric] a)
    have sc: "map score cs = [rnd 0.95, rnd 0.95, rnd 0.45000000000000007]"
      by (simp add: cs a b c)
    from planRoute_recommends_best [OF h1 h2 h3 h4 [unfolded cs_def]] h2 h3 sc [unfolded cs_def]
    show ?thesis by (simp add: plan a b c)
  qed
  have close: "recommendedRouteId (planRoute ''k'' fixturePrefs (fixtureWorld (Some closePaths))
          fixtureParams) = ''r2''
      \<and> map rid (routes (planRoute ''k'' fixturePrefs (fixtureWorld (Some closePaths))
          fixtureParams)) = [''r2'', ''r1'', ''r3'']
      \<and> length (filter (\<lambda>r. rid r = ''r2'')
          (routes (planRoute ''k'' fixturePrefs (fixtureWorld (Some closePaths)) fixtureParams)))
         = 1
      \<and> directionPaths (fixtureWorld (Some closePaths)) = Some closePaths
      \<and> closePaths \<noteq> []
      \<and> map score (scoredCandidates (fixtureWorld (Some closePaths)) fixturePrefs fixtureParams
          closePaths) = [rnd 0.8899999999999999, rnd 0.89, rnd 0.45000000000000007]"
  proof -
    define cs where
      "cs = scoredCandidates (fixtureWorld (Some closePaths)) fixturePrefs fixtureParams
              closePaths"
    have h2: "directionPaths (fixtureWorld (Some closePaths)) = Some closePaths"
      by (simp add: fixtureWorld_def)
    have h3: "closePaths \<noteq> []" by (simp add: closePaths_def)
    have "map (\<lambda>r. (rid r, score r)) cs
        = [(''r1'', rnd 0.8899999999999999), (''r2'', rnd 0.89),
           (''r3'', rnd 0.45000000000000007)]"
      unfolding cs_def by (rule close_scores)
    then obtain a b c where cs: "cs = [a, b, c]"
      and a: "rid a = ''r1''" "score a = rnd 0.8899999999999999"
      and b: "rid b = ''r2''" "score b = rnd 0.89"
      and c: "rid c = ''r3''" "score c = rnd 0.45000000000000007"
      by auto
    have h4: "\<forall>r \<in> set cs. score r \<noteq> NaN"
      by (simp add: cs a b c)
    have "sortRoutes cs = [b, a, c]"
      using score_order by (simp add: cs sortRoutes_def compareScore_sign a b c)
    then have plan: "planRoute ''k'' fixturePrefs (fixtureWorld (Some closePaths)) fixtureParams
        = \<lparr>recommendedRouteId = ''r2'', routes = [b, a, c]\<rparr>"
      using planRoute_planned [OF h1 h2 h3, of fixturePrefs fixtureParams]
      by (simp add: cs_def [symmetric] b)
    have sc: "map score cs = [rnd 0.8899999999999999, rnd 0.89, rnd 0.45000000000000007]"
      by (simp add: cs a b c)
    from planRoute_recommends_best [OF h1 h2 h3 h4 [unfolded cs_def]] h2 h3 sc [unfolded cs_def]
    show ?thesis by (simp add: plan a b c)
  qed
  from tied close h1 show ?thesis by simp
qed

text \<open>
  C7 as stated fails. The duration of the first of two candidates does not parse: every
  composite score of the batch is NaN, the comparator returns NaN for every pair, the
  sort leaves the order alone and the first candidate is recommended. Its score is not
  maximal: it is not even at least itself.
\<close>

theorem recommended_with_NaN_score:
  "unparsedPaths \<noteq> []
   \<and> recommendedRouteId (planRoute ''k'' fixturePrefs (fixtureWorld (Some unparsedPaths))
        fixtureParams) = ''r1''
   \<and> map score (scoredCandidates (fixtureWorld (Some unparsedPaths)) fixturePrefs fixtureParams
        unparsedPaths) = [NaN, NaN]
   \<and> \<not> score (hd (scoredCandidates (fixtureWorld (Some unparsedPaths)) fixturePrefs
          fixtureParams unparsedPaths))
        \<le> score (hd (scoredCandidates (fixtureWorld (Some unparsedPaths)) fixturePrefs
          fixtureParams unparsedPaths))"
proof -
  define cs where
    "cs = scoredCandidates (fixtureWorld (Some unparsedPaths)) fixturePrefs fixtureParams
            unparsedPaths"
  have h1: "''k'' \<noteq> []" by simp
  have h2: "directionPaths (fixtureWorld (Some unparsedPaths)) = Some unparsedPaths"
    by (simp add: fixtureWorld_def)
  have h3: "unparsedPaths \<noteq> []" by (simp add: unparsedPaths_def)
  have "map (\<lambda>r. (rid r, score r)) cs = [(''r1'', NaN), (''r2'', NaN)]"
    unfolding cs_def
    by (simp add: scoredCandidates_def scoreRoutes_def parseRoutes_def parseRoute_def
        fixturePath_def decimal.simps scoreRoute_def Let_def normalizeScore_def Math_min_def
        Math_max_def strict_eq_def calculatePreferenceScore_def calculateFinalScore_def
        mergePreferences_def fixturePrefs_def fixtureParams_def currentWeather_def
        fixtureWorld_def unparsedPaths_def)
  then obtain a b where cs: "cs = [a, b]"
    and a: "rid a = ''r1''" "score a = NaN" and b: "rid b = ''r2''" "score b = NaN"
    by auto
  have "sortRoutes cs = [a, b]"
    by (simp add: cs sortRoutes_def compareScore_def a b)
  then have "recommendedRouteId (planRoute ''k'' fixturePrefs (fixtureWorld (Some unparsedPaths))
      fixtureParams) = ''r1''"
    using planRoute_planned [OF h1 h2 h3, of fixturePrefs fixtureParams]
    by (simp add: cs_def [symmetric] a)
  then show ?thesis
    using h3 by (simp add: cs_def [symmetric] cs a b)
qed

section \<open>The reroute decision\<close>

subsection \<open>The estimate of the old duration\<close>

lemma zero_times_PI [simp]: "Fin 0 * Math_PI = Fin 0"
proof -
  from Math_PI_bounds obtain p where p: "Math_PI = Fin p" by (rule inRangeE)
  show ?thesis unfolding p by simp
qed

lemma trig_zero [simp]: "Math_sin (Fin 0) = Fin 0" "Math_cos (Fin 0) = Fin 1"
  by simp_all

lemma estimate_stationary: "estimateDuration [fixturePoint 0 0, fixturePoint 0 0] = Fin 0"
  by (simp add: estimateDuration_def calculateDistance_def fixturePoint_def Let_def)

lemma sin_near_half_pi:
  assumes "\<bar>h - pi / 2\<bar> \<le> e"
  shows "1 - e\<^sup>2 / 2 \<le> sin h"
proof -
  define d where "d = h - pi / 2"
  have "cos d = sin h"
    by (simp add: d_def cos_diff)
  moreover have "cos d = 1 - 2 * (sin (d / 2))\<^sup>2"
    using cos_double_sin [of "d / 2"] by simp
  moreover have "(sin (d / 2))\<^sup>2 \<le> (d / 2)\<^sup>2"
    using abs_sin_x_le_abs_x [of "d / 2"] by (simp only: abs_le_square_iff)
  moreover have "d\<^sup>2 \<le> e\<^sup>2"
    using assms by (simp add: d_def abs_le_square_iff [symmetric])
  ultimately show ?thesis
    by (simp add: power_divide)
qed

lemma arctan_large:
  assumes "0 < x" and "0 < y"
  shows "pi / 2 - x / y \<le> arctan (y / x)" and "arctan (y / x) \<le> pi / 2"
proof -
  have "arctan (1 / (x / y)) = sgn (x / y) * pi / 2 - arctan (x / y)"
    using assms by (intro arctan_inverse) simp
  moreover have "arctan (x / y) \<le> x / y"
    using assms by (intro arctan_upper) simp
  ultimately show "pi / 2 - x / y \<le> arctan (y / x)"
    using assms by simp
  show "arctan (y / x) \<le> pi / 2"
    using arctan_ubound [of "y / x"] by simp
qed

lemma dyadics:
  "rnd (9045 / 16) = Fin (9045 / 16)" "rnd (18225 / 32) = Fin (18225 / 32)"
  "rnd (201 / 64) = Fin (201 / 64)" "rnd (405 / 128) = Fin (405 / 128)"
  "rnd (201 / 128) = Fin (201 / 128)" "rnd (405 / 256) = Fin (405 / 256)"
  "rnd (8191 / 8192) = Fin (8191 / 8192)" "rnd (4095 / 4096) = Fin (4095 / 4096)"
  "rnd (1 / 4096) = Fin (1 / 4096)" "rnd (1 / 64) = Fin (1 / 64)"
  "rnd (397 / 256) = Fin (397 / 256)"
  using rnd_dyadic [of 9045 4] rnd_dyadic [of 18225 5] rnd_dyadic [of 201 6]
    rnd_dyadic [of 405 7] rnd_dyadic [of 201 7] rnd_dyadic [of 405 8]
    rnd_dyadic [of 8191 13] rnd_dyadic [of 4095 12] rnd_dyadic [of 1 12] rnd_dyadic [of 1 6]
    rnd_dyadic [of 397 8]
  by simp_all

text \<open>
  Along half of the equator the haversine formula gives a distance between 19760 km and
  20159 km (the exact value of the formula is \<open>6371 * pi\<close> km, about 20015 km).
\<close>

lemma halfEquator_distance:
  "inRange 19760054 20158243 (calculateDistance (fixturePoint 0 0) (fixturePoint 180 0))"
proof -
  have pi2: "201 / 128 \<le> pi / 2" "pi / 2 \<le> 405 / 256"
    using pi_bounds by simp_all
  have dl1: "inRange (9045 / 16) (18225 / 32) (Fin 180 * Math_PI)"
    by (rule inRange_times [OF _ Math_PI_bounds, of 180 180]) (simp_all add: dyadics)
  have dLng: "inRange (201 / 64) (405 / 128) (Fin 180 * Math_PI / Fin 180)"
    by (rule inRange_divide [OF dl1, of 180 180]) (simp_all add: dyadics)
  have half: "inRange (201 / 128) (405 / 256) (Fin 180 * Math_PI / Fin 180 / Fin 2)"
    by (rule inRange_divide [OF dLng, of 2 2]) (simp_all add: dyadics)
  then obtain h where h: "Fin 180 * Math_PI / Fin 180 / Fin 2 = Fin h"
    "201 / 128 \<le> h" "h \<le> 405 / 256"
    by (rule inRangeE)
  have "\<bar>h - pi / 2\<bar> \<le> 3 / 256"
    using h(2,3) pi2 by (simp add: abs_if)
  then have "1 - (3 / 256)\<^sup>2 / 2 \<le> sin h"
    by (rule sin_near_half_pi)
  then have "8191 / 8192 \<le> sin h"
    by (simp add: power2_eq_square)
  then have s: "inRange (8191 / 8192) 1 (Math_sin (Fin h))"
    by (simp del: inRange_Fin) (intro inRange_rnd; simp add: dyadics)
  have s1: "inRange (8191 / 8192) 1 (Fin 1 * Math_sin (Fin h))"
    by (rule inRange_times [OF _ s, of 1 1]) (simp_all add: dyadics)
  have s2: "inRange (4095 / 4096) 1 (Fin 1 * Math_sin (Fin h) * Math_sin (Fin h))"
    by (rule inRange_times [OF s1 s]) (simp_all add: dyadics)
  have a: "inRange (4095 / 4096) 1 (Fin 0 + Fin 1 * Math_sin (Fin h) * Math_sin (Fin h))"
    by (rule inRange_plus [OF _ s2, of 0 0]) (simp_all add: dyadics)
  then obtain av where av: "Fin 0 + Fin 1 * Math_sin (Fin h) * Math_sin (Fin h) = Fin av"
    "4095 / 4096 \<le> av" "av \<le> 1"
    by (rule inRangeE)
  have y: "inRange (4095 / 4096) 1 (Math_sqrt (Fin av))"
    by (rule inRange_sqrt [where a = "4095 / 4096" and b = 1])
       (use av in \<open>simp_all add: dyadics power2_eq_square\<close>)
  then obtain yv where yv: "Math_sqrt (Fin av) = Fin yv" "4095 / 4096 \<le> yv" "yv \<le> 1"
    by (rule inRangeE)
  have om: "inRange 0 (1 / 4096) (Fin 1 - Fin av)"
    unfolding minus_jsnum_def uminus_jsnum.simps plus_jsnum.simps
    using av(2,3) by (intro inRange_rnd) (simp_all add: dyadics)
  have x: "inRange 0 (1 / 64) (Math_sqrt (Fin 1 - Fin av))"
    by (rule inRange_sqrt [OF om]) (simp_all add: dyadics power2_eq_square)
  then obtain xv where xv: "Math_sqrt (Fin 1 - Fin av) = Fin xv" "0 \<le> xv" "xv \<le> 1 / 64"
    by (rule inRangeE)
  have at: "inRange (397 / 256) (405 / 256) (Math_atan2 (Fin yv) (Fin xv))"
  proof (cases "0 < xv")
    case True
    have ypos: "0 < yv" using yv(2) by simp
    have "xv / yv \<le> (1 / 64) / (4095 / 4096)"
      using xv(2,3) yv(2) by (intro frac_le) simp_all
    then have "397 / 256 \<le> pi / 2 - xv / yv"
      using pi2 by simp
    with arctan_large [OF True ypos] pi2
    have "397 / 256 \<le> arctan (yv / xv)" "arctan (yv / xv) \<le> 405 / 256"
      by linarith+
    then have "inRange (397 / 256) (405 / 256) (rnd (arctan (yv / xv)))"
      by (intro inRange_rnd) (simp_all add: dyadics)
    with True show ?thesis by simp
  next
    case False
    with xv(2) have "xv = 0" by simp
    moreover have "0 < yv" using yv(2) by simp
    moreover have "inRange (397 / 256) (405 / 256) (rnd (pi / 2))"
      using pi2 by (intro inRange_rnd) (simp_all add: dyadics)
    ultimately show ?thesis by simp
  qed
  have d: "inRange 19760054 20158243 (Fin 12742000 * Math_atan2 (Fin yv) (Fin xv))"
    by (rule inRange_times [OF _ at, of 12742000 12742000]) simp_all
  have "calculateDistance (fixturePoint 0 0) (fixturePoint 180 0)
      = Fin 12742000 * Math_atan2 (Fin yv) (Fin xv)"
    by (simp add: calculateDistance_def fixturePoint_def Let_def h(1) av(1) yv(1) xv(1)
        del: Math_sin.simps Math_cos.simps Math_sqrt.simps Math_atan2.simps)
  with d show ?thesis by simp
qed

text \<open>
  \<open>estimateDuration\<close> turns that distance into a time at 40 km/h: between 1778400 s and
  1814400 s (20015 km at 40 km/h take 1801358 s; at 50 km/h they would take 1441087 s).
\<close>

lemma halfEquator_estimate: "inRange 1778400 1814400 (estimateDuration halfEquator)"
proof -
  have t: "inRange 19760054 20158243
      (Fin 0 + calculateDistance (fixturePoint 0 0) (fixturePoint 180 0))"
    by (rule inRange_plus [OF _ halfEquator_distance, of 0 0]) simp_all
  have km: "inRange 19760 20159
      ((Fin 0 + calculateDistance (fixturePoint 0 0) (fixturePoint 180 0)) / Fin 1000)"
    by (rule inRange_divide [OF t, of 1000 1000]) simp_all
  have hours: "inRange 494 504
      ((Fin 0 + calculateDistance (fixturePoint 0 0) (fixturePoint 180 0)) / Fin 1000 / Fin 40)"
    by (rule inRange_divide [OF km, of 40 40]) simp_all
  have "inRange 1778400 1814400
      ((Fin 0 + calculateDistance (fixturePoint 0 0) (fixturePoint 180 0)) / Fin 1000 / Fin 40
        * Fin 3600)"
    by (rule inRange_times [OF hours, of 3600 3600]) simp_all
  then show ?thesis
    by (simp add: estimateDuration_def halfEquator_def)
qed

lemma halfEquator_threshold:
  "inRange 1417162 1460025 (estimateDuration halfEquator * rnd 0.8)"
  by (rule inRange_times [OF halfEquator_estimate lit_08]) simp_all

subsection \<open>The decision\<close>

lemma single_candidate_duration:
  "durationSeconds (hd (routes (planRoute ''k'' fixturePrefs
      (fixtureWorld (Some [fixturePath d t []])) params))) = Fin t"
proof -
  have "map durationSeconds (routes (planRoute ''k'' fixturePrefs
      (fixtureWorld (Some [fixturePath d t []])) params)) = [Fin t]"
    by (simp add: planRoute_def parseRoutes_def parseRoute_def fixtureWorld_def fixturePath_def
        scoreRoutes_def Let_def)
  then show ?thesis
    by (cases "routes (planRoute ''k'' fixturePrefs
          (fixtureWorld (Some [fixturePath d t []])) params)") auto
qed

text \<open>
  C2, as the code has it. With a route engine, a destination and a non-empty current
  route, a reroute suggestion is emitted if and only if the estimated old duration is 0
  or the new duration is below the old one times 0.8 (the product as the machine rounds
  it, with the double 0.8). The old duration is \<open>estimateDuration\<close> of the current
  polyline (its haversine length at 40 km/h); the new one is the duration of the first
  route of a fresh \<open>planRoute\<close>.
\<close>

theorem suggestReroute_iff:
  assumes "hasRouteEngine svc" and "currentDestination svc \<noteq> []" and "navRoute svc \<noteq> []"
  shows "(suggestReroute key userPrefs W svc \<noteq> None) =
         (strict_eq (estimateDuration (navRoute svc)) (Fin 0)
          \<or> durationSeconds (hd (routes (planRoute key userPrefs W rerouteParams)))
              < estimateDuration (navRoute svc) * rnd 0.8)"
  using assms planRoute_routes_nonempty [of key userPrefs W rerouteParams]
  by (cases "routes (planRoute key userPrefs W rerouteParams)")
     (simp_all add: suggestReroute_def oldDurationOf_def Let_def)

text \<open>
  The current route is half of the equator: its estimated duration is about 1801358 s,
  between 1778400 s and 1814400 s, and 0.8 times it about 1441087 s. A fresh plan of
  1300000 s is suggested; one of 1600000 s, although shorter than the estimate, is not.
  On a current route of a single point the estimate is 0, and the plan of 1600000 s is
  suggested.
\<close>

theorem suggestReroute_iff_witness:
  "hasRouteEngine (fixtureService halfEquator)
   \<and> currentDestination (fixtureService halfEquator) \<noteq> []
   \<and> navRoute (fixtureService halfEquator) \<noteq> []
   \<and> inRange 1778400 1814400 (estimateDuration (navRoute (fixtureService halfEquator)))
   \<and> durationSeconds (hd (routes (planRoute ''k'' fixturePrefs
        (fixtureWorld (Some [fixturePath 12500 1300000 []])) rerouteParams))) = Fin 1300000
   \<and> suggestReroute ''k'' fixturePrefs (fixtureWorld (Some [fixturePath 12500 1300000 []]))
        (fixtureService halfEquator) \<noteq> None
   \<and> durationSeconds (hd (routes (planRoute ''k'' fixturePrefs
        (fixtureWorld (Some [fixturePath 12500 1600000 []])) rerouteParams))) = Fin 1600000
   \<and> suggestReroute ''k'' fixturePrefs (fixtureWorld (Some [fixturePath 12500 1600000 []]))
        (fixtureService halfEquator) = None
   \<and> navRoute (fixtureService [fixturePoint 0 0]) \<noteq> []
   \<and> estimateDuration (navRoute (fixtureService [fixturePoint 0 0])) = Fin 0
   \<and> suggestReroute ''k'' fixturePrefs (fixtureWorld (Some [fixturePath 12500 1600000 []]))
        (fixtureService [fixturePoint 0 0]) \<noteq> None"
proof -
  have h: "hasRouteEngine (fixtureService halfEquator)"
    "currentDestination (fixtureService halfEquator) \<noteq> []"
    "navRoute (fixtureService halfEquator) \<noteq> []"
    by (simp_all add: fixtureService_def halfEquator_def)
  have nav: "navRoute (fixtureService halfEquator) = halfEquator"
    by (simp add: fixtureService_def)
  from halfEquator_estimate obtain old where old: "estimateDuration halfEquator = Fin old"
    "1778400 \<le> old"
    by (rule inRangeE)
  from halfEquator_threshold obtain thr where thr: "estimateDuration halfEquator * rnd 0.8 = Fin thr"
    "1417162 \<le> thr" "thr \<le> 1460025"
    by (rule inRangeE)
  have nonzero: "\<not> strict_eq (estimateDuration halfEquator) (Fin 0)"
    using old by (simp add: strict_eq_def)
  have below: "Fin 1300000 < estimateDuration halfEquator * rnd 0.8"
    using thr by simp
  have above: "\<not> Fin 1600000 < estimateDuration halfEquator * rnd 0.8"
    using thr by simp
  note d1 = single_candidate_duration [of 12500 1300000 rerouteParams]
  note d2 = single_candidate_duration [of 12500 1600000 rerouteParams]
  have s1: "suggestReroute ''k'' fixturePrefs (fixtureWorld (Some [fixturePath 12500 1300000 []]))
        (fixtureService halfEquator) \<noteq> None"
    unfolding suggestReroute_iff [OF h] nav d1 using below by simp
  have s2: "suggestReroute ''k'' fixturePrefs (fixtureWorld (Some [fixturePath 12500 1600000 []]))
        (fixtureService halfEquator) = None"
    using suggestReroute_iff [OF h, of "''k''" fixturePrefs
        "fixtureWorld (Some [fixturePath 12500 1600000 []])"] nonzero above
    unfolding nav d2 by simp
  have g: "hasRouteEngine (fixtureService [fixturePoint 0 0])"
    "currentDestination (fixtureService [fixturePoint 0 0]) \<noteq> []"
    "navRoute (fixtureService [fixturePoint 0 0]) \<noteq> []"
    by (simp_all add: fixtureService_def)
  have zero: "estimateDuration (navRoute (fixtureService [fixturePoint 0 0])) = Fin 0"
    by (simp add: fixtureService_def estimateDuration_def)
  have s3: "suggestReroute ''k'' fixturePrefs (fixtureWorld (Some [fixturePath 12500 1600000 []]))
        (fixtureService [fixturePoint 0 0]) \<noteq> None"
    unfolding suggestReroute_iff [OF g] zero by (simp add: strict_eq_def)
  show ?thesis
    using h halfEquator_estimate d1 d2 s1 s2 g(3) zero s3 by (simp add: nav)
qed

text \<open>
  C2 as stated fails: the current route joins a point to itself, so its estimated duration
  is 0; the fresh plan takes 1500 s, which is not below 0.8 times 0; a suggestion is
  emitted all the same.
\<close>

theorem reroute_with_zero_old_duration:
  "suggestReroute ''k'' fixturePrefs (fixtureWorld (Some [fixturePath 12500 1500 []]))
     (fixtureService [fixturePoint 0 0, fixturePoint 0 0]) \<noteq> None
   \<and> estimateDuration (navRoute (fixtureService [fixturePoint 0 0, fixturePoint 0 0])) = Fin 0
   \<and> \<not> durationSeconds (hd (routes (planRoute ''k'' fixturePrefs
           (fixtureWorld (Some [fixturePath 12500 1500 []])) rerouteParams)))
        < estimateDuration (navRoute (fixtureService [fixturePoint 0 0, fixturePoint 0 0]))
          * rnd 0.8"
proof -
  have plan: "map durationSeconds (routes (planRoute ''k'' fixturePrefs
      (fixtureWorld (Some [fixturePath 12500 1500 []])) rerouteParams)) = [Fin 1500]"
    by (simp add: planRoute_def parseRoutes_def parseRoute_def fixtureWorld_def fixturePath_def
        scoreRoutes_def Let_def)
  then obtain b where b: "routes (planRoute ''k'' fixturePrefs
      (fixtureWorld (Some [fixturePath 12500 1500 []])) rerouteParams) = [b]"
      and d: "durationSeconds b = Fin 1500"
    by auto
  from lit_08 obtain c where c: "rnd 0.8 = Fin c" by (rule inRangeE)
  show ?thesis
    using c
    by (simp add: suggestReroute_def oldDurationOf_def fixtureService_def b d
        estimate_stationary strict_eq_def Let_def)
qed

section \<open>Monitoring\<close>

subsection \<open>The distance test\<close>

lemma affects_iff:
  "checkEventAffectsRoute rt e = (calculateMinDistanceToRoute rt (location e) < Fin 500)"
  by (cases rt) (simp_all add: checkEventAffectsRoute_def calculateMinDistanceToRoute_def)

lemma Math_min2_less:
  "(Math_min2 a b < Fin c) = (a \<noteq> NaN \<and> b \<noteq> NaN \<and> (a < Fin c \<or> b < Fin c))"
  by (cases a; cases b) auto

lemma Math_min2_NaN_iff: "(Math_min2 a b = NaN) = (a = NaN \<or> b = NaN)"
  by (cases a; cases b) auto

lemma minDistLoop_less:
  "(minDistLoop pt rt acc < Fin c) =
     (acc \<noteq> NaN \<and> NaN \<notin> set (segmentDistances rt pt)
      \<and> (acc < Fin c \<or> (\<exists>d \<in> set (segmentDistances rt pt). d < Fin c)))"
proof (induction pt rt acc rule: minDistLoop.induct)
  case (1 pt a b rest minDist)
  have seg: "segmentDistances (a # b # rest) pt
      = pointToSegmentDistance pt a b # segmentDistances (b # rest) pt"
    by (simp add: segmentDistances_def)
  show ?case
    unfolding minDistLoop.simps(1) "1.IH" seg
    by (auto simp: Math_min2_less Math_min2_NaN_iff)
qed (auto simp: segmentDistances_def)

text \<open>
  The test of the code is the test on the segments: an event affects the route exactly
  when no segment distance is NaN and one of them is below 500.
\<close>

lemma affects_near: "checkEventAffectsRoute rt e = nearRoute rt (location e)"
  unfolding checkEventAffectsRoute_def calculateMinDistanceToRoute_def nearRoute_def
    minDistLoop_less
  by (cases rt) (simp_all add: segmentDistances_def)

lemma segmentDistances_two [simp]:
  "segmentDistances [a, b] pt = [pointToSegmentDistance pt a b]"
  by (simp add: segmentDistances_def)

subsection \<open>Distances to the one-degree route\<close>

lemma more_dyadics:
  "rnd (1 / 2) = Fin (1 / 2)" "rnd (1 / 256) = Fin (1 / 256)"
  "rnd (1 / 65536) = Fin (1 / 65536)" "rnd (796375 / 32) = Fin (796375 / 32)"
  "rnd (5 / 1024) = Fin (5 / 1024)" "rnd (25 / 1048576) = Fin (25 / 1048576)"
  "rnd (3981875 / 128) = Fin (3981875 / 128)"
  using rnd_dyadic [of 1 1] rnd_dyadic [of 1 8] rnd_dyadic [of 1 16] rnd_dyadic [of 796375 5]
    rnd_dyadic [of 5 10] rnd_dyadic [of 25 20] rnd_dyadic [of 3981875 7]
  by simp_all

lemma square_roots: "sqrt (1 / 65536) = 1 / 256" "sqrt (25 / 1048576) = 5 / 1024"
  by (rule real_sqrt_unique; simp add: power2_eq_square)+

lemma near_distance:
  "pointToSegmentDistance (fixturePoint 0 0) (fixturePoint 0 0) (fixturePoint 1 0) = Fin 0"
  by (simp add: fixturePoint_def pointToSegmentDistance_def toRad_def Let_def)

text \<open>
  A point abeam the middle of the route, \<open>y\<close> degrees of latitude away: the nearest point
  of the segment is its middle, and the distance is \<open>y * 6371000 * pi / 180\<close> metres.
\<close>

lemma event434_distance:
  "inRange 434 438
     (pointToSegmentDistance (fixturePoint (1 / 2) (1 / 256)) (fixturePoint 0 0)
        (fixturePoint 1 0))"
proof -
  have eq: "pointToSegmentDistance (fixturePoint (1 / 2) (1 / 256)) (fixturePoint 0 0)
        (fixturePoint 1 0) = Fin (796375 / 32) * Math_PI / Fin 180"
    by (simp add: fixturePoint_def pointToSegmentDistance_def toRad_def Let_def more_dyadics
        square_roots minus_jsnum_def)
  have "inRange 78159 78744 (Fin (796375 / 32) * Math_PI)"
    by (rule inRange_times [OF _ Math_PI_bounds, of "796375 / 32" "796375 / 32"]) simp_all
  then have "inRange 434 438 (Fin (796375 / 32) * Math_PI / Fin 180)"
    by (rule inRange_divide [where c = 180 and d = 180]) simp_all
  then show ?thesis by (simp only: eq)
qed

lemma event543_distance:
  "inRange 542 547
     (pointToSegmentDistance (fixturePoint (1 / 2) (5 / 1024)) (fixturePoint 0 0)
        (fixturePoint 1 0))"
proof -
  have eq: "pointToSegmentDistance (fixturePoint (1 / 2) (5 / 1024)) (fixturePoint 0 0)
        (fixturePoint 1 0) = Fin (3981875 / 128) * Math_PI / Fin 180"
    by (simp add: fixturePoint_def pointToSegmentDistance_def toRad_def Let_def more_dyadics
        square_roots minus_jsnum_def)
  have "inRange 97699 98429 (Fin (3981875 / 128) * Math_PI)"
    by (rule inRange_times [OF _ Math_PI_bounds, of "3981875 / 128" "3981875 / 128"]) simp_all
  then have "inRange 542 547 (Fin (3981875 / 128) * Math_PI / Fin 180)"
    by (rule inRange_divide [where c = 180 and d = 180]) simp_all
  then show ?thesis by (simp only: eq)
qed

text \<open>
  A point on the line of the route beyond its end: the projection parameter is clamped to
  1, the nearest point is the end of the segment, one degree of longitude away.
\<close>

lemma eventBeyondEnd_distance:
  "inRange 111160 111991
     (pointToSegmentDistance (fixturePoint 2 0) (fixturePoint 0 0) (fixturePoint 1 0))"
proof -
  have eq: "pointToSegmentDistance (fixturePoint 2 0) (fixturePoint 0 0) (fixturePoint 1 0)
      = Fin 6371000 * Math_PI / Fin 180"
    by (simp add: fixturePoint_def pointToSegmentDistance_def toRad_def Let_def minus_jsnum_def)
  have "inRange 20008921 20158243 (Fin 6371000 * Math_PI)"
    by (rule inRange_times [OF _ Math_PI_bounds, of 6371000 6371000]) simp_all
  then have "inRange 111160 111991 (Fin 6371000 * Math_PI / Fin 180)"
    by (rule inRange_divide [where c = 180 and d = 180]) simp_all
  then show ?thesis by (simp only: eq)
qed

lemma fixture_near:
  "nearRoute twoPointRoute (location nearEvent)"
  "nearRoute twoPointRoute (location event434)"
  "\<not> nearRoute twoPointRoute (location event543)"
  "\<not> nearRoute twoPointRoute (location eventBeyondEnd)"
  using event434_distance event543_distance eventBeyondEnd_distance
  by (auto simp: nearRoute_def twoPointRoute_def nearEvent_def event434_def event543_def
      eventBeyondEnd_def fixtureEvent_def near_distance elim!: inRangeE)

subsection \<open>Polls\<close>

lemma alertsFor_simps [simp]:
  "alertsFor i [] = []"
  "alertsFor i (xs @ ys) = alertsFor i xs @ alertsFor i ys"
  "alertsFor i [createAlert e] = (if ev_id e = i then [createAlert e] else [])"
  by (simp_all add: alertsFor_def createAlert_def)

lemma checkNewEvents_alert:
  "a \<in> set (fst (checkNewEvents rt events known)) \<Longrightarrow>
   \<exists>e \<in> set events. a = createAlert e \<and> checkEventAffectsRoute rt e"
  by (induction events arbitrary: known) (auto simp: Let_def split: if_splits)





lemma step_alert_near:
  "a \<in> set (fst (step key s act)) \<Longrightarrow> nearRoute (currentRoute (mon s)) (location (event a))"
  by (cases act)
     (auto simp: pollResumes_def Let_def affects_near createAlert_def
        dest!: checkNewEvents_alert split: if_splits)




lemma started:
  "startMonitoring ''k'' twoPointRoute initialSystem =
     \<lparr>mon = \<lparr>isMonitoring = True, monitorTimer = 1, currentRoute = twoPointRoute,
              lastEvents = []\<rparr>,
      liveTimers = [1], nextTimer = 2, pending = 1\<rparr>"
  by (simp add: startMonitoring_def initialSystem_def checkTrafficEvents_def pollStarts_def
      twoPointRoute_def Let_def)



subsection \<open>Stopping with a request pending\<close>

text \<open>
  \<open>stopMonitoring\<close> empties the route, and \<open>checkEventAffectsRoute\<close> is false on an empty
  route: as long as no route is set again, nothing the service does emits an alert.
\<close>

lemma no_alert_while_route_empty:
  assumes "currentRoute (mon s) = []"
      and "\<forall>a \<in> set acts. \<forall>rt. a \<noteq> StartMonitoring rt \<and> a \<noteq> UpdateRoute rt"
  shows "fst (run key s acts) = []"
  using assms
proof (induction acts arbitrary: s)
  case Nil
  then show ?case by simp
next
  case (Cons a acts)
  have step_nil: "fst (step key s a) = []"
  proof (rule ccontr)
    assume "fst (step key s a) \<noteq> []"
    then obtain x where "x \<in> set (fst (step key s a))" by (cases "fst (step key s a)") auto
    from step_alert_near [OF this] Cons.prems(1) show False
      by (simp add: nearRoute_def segmentDistances_def)
  qed
  have "currentRoute (mon (snd (step key s a))) = []"
    using Cons.prems
    by (cases a) (auto simp: stopMonitoring_def checkTrafficEvents_def pollResumes_def Let_def)
  with Cons.IH [of "snd (step key s a)"] Cons.prems(2) step_nil show ?case
    by (simp add: Let_def)
qed

text \<open>
  C4 on the code. Monitoring starts on a two-point route and sends its first request;
  \<open>stopMonitoring\<close> returns; \<open>updateRoute\<close> is called (the service forwards an
  \<open>update_route\<close> event without looking at its state); the request sent before the stop
  is answered with an event on the route. The poll resumes without testing
  \<open>isMonitoring\<close>, finds the event new and near the route now set, and emits an alert,
  although monitoring was stopped and not started again.
\<close>

theorem alert_after_stop_and_updateRoute:
  "fst (run ''k'' initialSystem
         [StartMonitoring twoPointRoute, StopMonitoring, UpdateRoute twoPointRoute,
          FetchReturns [nearEvent]]) = [createAlert nearEvent]
   \<and> \<not> isMonitoring (mon (snd (run ''k'' initialSystem
         [StartMonitoring twoPointRoute, StopMonitoring, UpdateRoute twoPointRoute])))"
  by (simp add: started stopMonitoring_def updateRoute_def Let_def pollResumes_def
      affects_near fixture_near)

text \<open>
  C5 on the code. Monitoring starts and sends its first request; \<open>stopMonitoring\<close>
  returns, leaving no events; the request is then answered with one event. The poll
  resumes and stores the event: the service is not monitoring, and its set of active
  events is no longer empty.
\<close>

theorem events_after_stop:
  "getActiveEvents (mon (snd (run ''k'' initialSystem
         [StartMonitoring twoPointRoute, StopMonitoring]))) = []
   \<and> \<not> isMonitoring (mon (snd (run ''k'' initialSystem
         [StartMonitoring twoPointRoute, StopMonitoring, FetchReturns [nearEvent]])))
   \<and> getActiveEvents (mon (snd (run ''k'' initialSystem
         [StartMonitoring twoPointRoute, StopMonitoring, FetchReturns [nearEvent]])))
     = [nearEvent]"
  by (simp add: started stopMonitoring_def Let_def pollResumes_def nearEvent_def
      fixtureEvent_def getActiveEvents_def)

end
